theory Spec2Isabelle
  imports Complex_Main "HOL-Library.Stream"
begin

section \<open>Values of the Python program\<close>

text \<open>
  The optimiser of \<^verbatim>\<open>class_optimize.py\<close> is embedded function by function.
  Python exceptions are values of a sum type (\<open>Inl\<close> the exception), Python integers are
  \<open>int\<close>, and Python floats are real numbers: rounding is not modelled, the only
  non-finite results that matter here are those of a division by zero inside numpy.
\<close>

datatype error =
    ValueError
  | IndexError
  | TypeError
  | KeyError
  | AttributeError
  | RuntimeError string

text \<open>
  An element of a float64 numpy array. numpy's true division does not raise on a zero
  divisor: it yields \<open>nan\<close> for \<open>0/0\<close> and a signed infinity otherwise.
\<close>

datatype npfloat = Finite real | NaN | PosInf | NegInf

definition np_true_divide :: "int \<Rightarrow> int \<Rightarrow> npfloat" where
  "np_true_divide a b =
     (if b = 0 then (if a = 0 then NaN else if 0 < a then PosInf else NegInf)
      else Finite (real_of_int a / real_of_int b))"

text \<open>\<^verbatim>\<open>np.max\<close> raises ValueError on an empty array.\<close>

fun np_max :: "int list \<Rightarrow> error + int" where
  "np_max [] = Inl ValueError"
| "np_max (x # xs) = Inr (fold max xs x)"

subsection \<open>Python list slicing\<close>

text \<open>
  A slice bound is clamped into \<open>0..len\<close>; a negative bound counts from the end.
  \<open>xs[lo:hi]\<close> is \<open>py_slice xs lo hi\<close>, and the slice assignment
  \<open>xs[lo:hi] = ys\<close> is \<open>py_slice_assign xs lo hi ys\<close> (the list may change length).
\<close>

definition py_bound :: "nat \<Rightarrow> int \<Rightarrow> nat" where
  "py_bound n i = (if i < 0 then nat (int n + i) else min (nat i) n)"

definition py_slice :: "'a list \<Rightarrow> int \<Rightarrow> int \<Rightarrow> 'a list" where
  "py_slice xs lo hi =
     (let l = py_bound (length xs) lo; h = py_bound (length xs) hi
      in take (h - l) (drop l xs))"

definition py_slice_assign :: "'a list \<Rightarrow> int \<Rightarrow> int \<Rightarrow> 'a list \<Rightarrow> 'a list" where
  "py_slice_assign xs lo hi ys =
     (let l = py_bound (length xs) lo; h = py_bound (length xs) hi
      in take l xs @ ys @ drop (max l h) xs)"

text \<open>\<open>xs[lo:] = ys\<close>: the upper bound is the length.\<close>

definition py_slice_from_assign :: "'a list \<Rightarrow> int \<Rightarrow> 'a list \<Rightarrow> 'a list" where
  "py_slice_from_assign xs lo ys = take (py_bound (length xs) lo) xs @ ys"

text \<open>\<open>xs[-1]\<close> raises IndexError on an empty list.\<close>

definition py_last :: "'a list \<Rightarrow> error + 'a" where
  "py_last xs = (if xs = [] then Inl IndexError else Inr (last xs))"

definition py_set_last :: "'a list \<Rightarrow> 'a \<Rightarrow> error + 'a list" where
  "py_set_last xs v = (if xs = [] then Inl IndexError else Inr (butlast xs @ [v]))"

text \<open>\<open>xs[i]\<close>: a negative index counts from the end, an index out of range raises.\<close>

definition py_index :: "'a list \<Rightarrow> int \<Rightarrow> error + 'a" where
  "py_index xs i =
     (if 0 \<le> i \<and> i < int (length xs) then Inr (xs ! nat i)
      else if i < 0 \<and> - int (length xs) \<le> i then Inr (xs ! nat (int (length xs) + i))
      else Inl IndexError)"

text \<open>\<^verbatim>\<open>[table[i] for i in indices]\<close>.\<close>

fun py_index_all :: "'a list \<Rightarrow> int list \<Rightarrow> error + 'a list" where
  "py_index_all table [] = Inr []"
| "py_index_all table (i # is) =
     (case py_index table i of
        Inl e \<Rightarrow> Inl e
      | Inr v \<Rightarrow>
          (case py_index_all table is of
             Inl e \<Rightarrow> Inl e
           | Inr vs \<Rightarrow> Inr (v # vs)))"

text \<open>\<^verbatim>\<open>np.full(n, v)\<close> raises ValueError on a negative length.\<close>

definition np_full :: "int \<Rightarrow> 'a \<Rightarrow> error + 'a list" where
  "np_full n v = (if n < 0 then Inl ValueError else Inr (replicate (nat n) v))"

subsection \<open>The random source\<close>

text \<open>
  The generator of Python's \<^verbatim>\<open>random\<close> module is a stream of arbitrary naturals, one
  consumed per call. \<^verbatim>\<open>random.random()\<close> is a 53-bit fraction in \<open>[0, 1)\<close>;
  \<^verbatim>\<open>random.randint(a, b)\<close> raises ValueError on an empty range and otherwise returns
  a value of \<open>a..b\<close>, every one of which some stream produces.
\<close>

type_synonym rng = "nat stream"

definition random_random :: "rng \<Rightarrow> real \<times> rng" where
  "random_random r = (real (shd r mod 2 ^ 53) / 2 ^ 53, stl r)"

definition randint :: "int \<Rightarrow> int \<Rightarrow> rng \<Rightarrow> error + (int \<times> rng)" where
  "randint a b r =
     (if b < a then Inl ValueError
      else Inr (a + int (shd r mod nat (b - a + 1)), stl r))"

section \<open>Decoding the battery genes\<close>

text \<open>
  \<^verbatim>\<open>split_charge_discharge\<close>: the charge array keeps the negated negative genes and is
  divided by its maximum; the discharge array keeps the positive genes.
  The genes are small integers, far inside the 64-bit range of the numpy array: its
  wrap-around is not modelled.
\<close>

definition split_charge_discharge :: "int list \<Rightarrow> error + (npfloat list \<times> int list)" where
  "split_charge_discharge discharge_hours_bin =
     (let charge = map (\<lambda>x. - (if x < 0 then x else 0)) discharge_hours_bin
      in case np_max charge of
           Inl e \<Rightarrow> Inl e
         | Inr m \<Rightarrow>
             Inr (map (\<lambda>c. np_true_divide c m) charge,
                  map (\<lambda>x. if 0 < x then x else 0) discharge_hours_bin))"

section \<open>The optimisation problem object\<close>

text \<open>
  An individual is a DEAP \<^verbatim>\<open>creator.Individual\<close>: a list of genes that may carry the
  attribute \<^verbatim>\<open>extra_data\<close>, set by \<^verbatim>\<open>evaluate\<close>.
\<close>

record individual =
  genes :: "int list"
  extra_data :: "(real \<times> real \<times> real) option"

text \<open>
  The toolbox built by \<^verbatim>\<open>setup_deap_environment\<close>: the start hour bound into
  \<^verbatim>\<open>attr_int\<close> and \<^verbatim>\<open>mutate_hour\<close>, and whether \<^verbatim>\<open>attr_ev_charge_index\<close>
  was registered.
\<close>

record toolbox =
  tb_start_hour :: int
  tb_has_ev :: bool

text \<open>
  The fields of \<^verbatim>\<open>optimization_problem\<close>. \<open>opti_param\<close> is the entry
  \<^verbatim>\<open>"haushaltsgeraete"\<close> of the dictionary of that name, \<open>None\<close> before the setup.
  The table \<^verbatim>\<open>possible_ev_charge_currents\<close> of \<^verbatim>\<open>akkudoktoreos.config\<close> is not
  part of the source file; \<open>possible_charge_values\<close> holds it.
\<close>

record optimization_problem =
  prediction_hours :: int
  strafe :: real
  opti_param :: "int option"
  fixed_eauto_hours :: int
  possible_charge_values :: "real list"
  verbose :: bool
  fix_seed :: "int option"
  optimize_ev :: bool
  toolbox :: "toolbox option"

text \<open>
  The constructor. With a \<open>fixed_seed\<close> it also seeds the generator of the \<^verbatim>\<open>random\<close>
  module; the functions that draw take the random source as an argument, so the seed
  only decides which stream they are given.
\<close>

definition init ::
  "real list \<Rightarrow> int \<Rightarrow> real \<Rightarrow> int \<Rightarrow> bool \<Rightarrow> int option \<Rightarrow> optimization_problem" where
  "init possible_ev_charge_currents prediction_hours' strafe' optimization_hours verbose'
        fixed_seed =
     \<lparr> prediction_hours = prediction_hours',
       strafe = strafe',
       opti_param = None,
       fixed_eauto_hours = prediction_hours' - optimization_hours,
       possible_charge_values = possible_ev_charge_currents,
       verbose = verbose',
       fix_seed = fixed_seed,
       optimize_ev = True,
       toolbox = None \<rparr>"

definition setup_deap_environment ::
  "optimization_problem \<Rightarrow> int \<Rightarrow> int \<Rightarrow> optimization_problem" where
  "setup_deap_environment self haushaltsgeraete start_hour =
     self\<lparr> opti_param := Some haushaltsgeraete,
           toolbox := Some \<lparr> tb_start_hour = start_hour, tb_has_ev = optimize_ev self \<rparr> \<rparr>"

subsection \<open>Library operators\<close>

text \<open>
  Modelled from the spec: the DEAP operators \<^verbatim>\<open>tools.mutUniformInt\<close> and
  \<^verbatim>\<open>tools.cxTwoPoint\<close> that the toolbox registers are not part of the source file.
  Mutation resamples each position independently, with probability \<open>indpb\<close>, uniformly
  from \<open>low..up\<close>. Crossover is two-point over the flat sequence: two cut points are
  drawn within the shorter parent and the segment between them is exchanged.
\<close>

fun mutUniformInt ::
  "int \<Rightarrow> int \<Rightarrow> real \<Rightarrow> int list \<Rightarrow> rng \<Rightarrow> error + (int list \<times> rng)" where
  "mutUniformInt low up indpb [] r = Inr ([], r)"
| "mutUniformInt low up indpb (x # xs) r =
     (case random_random r of (u, r1) \<Rightarrow>
        if u < indpb then
          (case randint low up r1 of
             Inl e \<Rightarrow> Inl e
           | Inr (v, r2) \<Rightarrow>
               (case mutUniformInt low up indpb xs r2 of
                  Inl e \<Rightarrow> Inl e
                | Inr (ys, r3) \<Rightarrow> Inr (v # ys, r3)))
        else
          (case mutUniformInt low up indpb xs r1 of
             Inl e \<Rightarrow> Inl e
           | Inr (ys, r3) \<Rightarrow> Inr (x # ys, r3)))"

definition cxTwoPoint ::
  "int list \<Rightarrow> int list \<Rightarrow> rng \<Rightarrow> error + ((int list \<times> int list) \<times> rng)" where
  "cxTwoPoint ind1 ind2 r =
     (let size = int (min (length ind1) (length ind2)) in
      case randint 1 size r of
        Inl e \<Rightarrow> Inl e
      | Inr (p1, r1) \<Rightarrow>
          (case randint 1 (size - 1) r1 of
             Inl e \<Rightarrow> Inl e
           | Inr (p2, r2) \<Rightarrow>
               (let cxpoint1 = (if p1 \<le> p2 then p1 else p2);
                    cxpoint2 = (if p1 \<le> p2 then p2 + 1 else p1)
                in Inr ((py_slice_assign ind1 cxpoint1 cxpoint2 (py_slice ind2 cxpoint1 cxpoint2),
                         py_slice_assign ind2 cxpoint1 cxpoint2 (py_slice ind1 cxpoint1 cxpoint2)),
                        r2))))"

text \<open>The list comprehension \<^verbatim>\<open>[f() for _ in range(n)]\<close>.\<close>

fun draw_n :: "(rng \<Rightarrow> error + ('a \<times> rng)) \<Rightarrow> nat \<Rightarrow> rng \<Rightarrow> error + ('a list \<times> rng)" where
  "draw_n f 0 r = Inr ([], r)"
| "draw_n f (Suc n) r =
     (case f r of
        Inl e \<Rightarrow> Inl e
      | Inr (v, r1) \<Rightarrow>
          (case draw_n f n r1 of
             Inl e \<Rightarrow> Inl e
           | Inr (vs, r2) \<Rightarrow> Inr (v # vs, r2)))"

subsection \<open>Creating, mutating and splitting an individual\<close>

text \<open>
  \<^verbatim>\<open>create_individual\<close>. Before \<^verbatim>\<open>setup_deap_environment\<close> has run there is neither a
  toolbox nor the class \<^verbatim>\<open>creator.Individual\<close>, and the call fails.
\<close>

definition create_individual ::
  "optimization_problem \<Rightarrow> rng \<Rightarrow> error + (individual \<times> rng)" where
  "create_individual self r =
     (case toolbox self of
        None \<Rightarrow> Inl AttributeError
      | Some tb \<Rightarrow>
          (case draw_n (randint (- 5) 1) (nat (prediction_hours self)) r of
             Inl e \<Rightarrow> Inl e
           | Inr (discharge, r1) \<Rightarrow>
               (case (if optimize_ev self then
                        draw_n (if tb_has_ev tb
                                then randint 0 (int (length (possible_charge_values self)) - 1)
                                else (\<lambda>_. Inl AttributeError))
                               (nat (prediction_hours self)) r1
                      else Inr ([], r1)) of
                  Inl e \<Rightarrow> Inl e
                | Inr (ev, r2) \<Rightarrow>
                    (case opti_param self of
                       None \<Rightarrow> Inl TypeError
                     | Some haushaltsgeraete \<Rightarrow>
                         (if 0 < haushaltsgeraete then
                            (case randint (tb_start_hour tb) 23 r2 of
                               Inl e \<Rightarrow> Inl e
                             | Inr (h, r3) \<Rightarrow>
                                 Inr (\<lparr> genes = discharge @ ev @ [h], extra_data = None \<rparr>, r3))
                          else Inr (\<lparr> genes = discharge @ ev, extra_data = None \<rparr>, r2))))))"

text \<open>
  \<^verbatim>\<open>mutate\<close>, on the gene list. The three regions are mutated in turn; the EV region
  only when \<open>optimize_ev\<close> is set, and then its locked tail is overwritten with zeros.
\<close>

definition mutate_ev_part :: "optimization_problem \<Rightarrow> int list \<Rightarrow> rng \<Rightarrow> error + (int list \<times> rng)" where
  "mutate_ev_part self individual r =
     (let H = prediction_hours self in
      case mutUniformInt 0 (int (length (possible_charge_values self)) - 1) (1 / 10)
             (py_slice individual H (H * 2)) r of
        Inl e \<Rightarrow> Inl e
      | Inr (ev_charge_part_mutated, r1) \<Rightarrow>
          Inr (py_slice_assign individual H (H * 2)
                 (py_slice_from_assign ev_charge_part_mutated (H - fixed_eauto_hours self)
                    (replicate (nat (fixed_eauto_hours self)) 0)),
               r1))"

definition mutate_appliance_part :: "toolbox \<Rightarrow> int list \<Rightarrow> rng \<Rightarrow> error + (int list \<times> rng)" where
  "mutate_appliance_part tb individual r =
     (case py_last individual of
        Inl e \<Rightarrow> Inl e
      | Inr a \<Rightarrow>
          (case mutUniformInt (tb_start_hour tb) 23 (1 / 10) [a] r of
             Inl e \<Rightarrow> Inl e
           | Inr (appliance_part_mutated, r1) \<Rightarrow>
               (case appliance_part_mutated of
                  [] \<Rightarrow> Inl IndexError
                | v # _ \<Rightarrow>
                    (case py_set_last individual v of
                       Inl e \<Rightarrow> Inl e
                     | Inr ind' \<Rightarrow> Inr (ind', r1)))))"

definition mutate_genes :: "optimization_problem \<Rightarrow> int list \<Rightarrow> rng \<Rightarrow> error + (int list \<times> rng)" where
  "mutate_genes self individual r =
     (case toolbox self of
        None \<Rightarrow> Inl AttributeError
      | Some tb \<Rightarrow>
          (case mutUniformInt (- 5) 1 (1 / 10)
                  (py_slice individual 0 (prediction_hours self)) r of
             Inl e \<Rightarrow> Inl e
           | Inr (discharge, r1) \<Rightarrow>
               (case (if optimize_ev self then
                        mutate_ev_part self
                          (py_slice_assign individual 0 (prediction_hours self) discharge) r1
                      else Inr (py_slice_assign individual 0 (prediction_hours self) discharge, r1)) of
                  Inl e \<Rightarrow> Inl e
                | Inr (ind2, r2) \<Rightarrow>
                    (case opti_param self of
                       None \<Rightarrow> Inl TypeError
                     | Some haushaltsgeraete \<Rightarrow>
                         (if 0 < haushaltsgeraete then mutate_appliance_part tb ind2 r2
                          else Inr (ind2, r2))))))"

definition mutate :: "optimization_problem \<Rightarrow> individual \<Rightarrow> rng \<Rightarrow> error + (individual \<times> rng)" where
  "mutate self ind r =
     (case mutate_genes self (genes ind) r of
        Inl e \<Rightarrow> Inl e
      | Inr (g, r') \<Rightarrow> Inr (ind\<lparr>genes := g\<rparr>, r'))"

text \<open>The crossover registered as \<^verbatim>\<open>mate\<close> is the library operator, with nothing added.\<close>

definition mate ::
  "individual \<Rightarrow> individual \<Rightarrow> rng \<Rightarrow> error + ((individual \<times> individual) \<times> rng)" where
  "mate ind1 ind2 r =
     (case cxTwoPoint (genes ind1) (genes ind2) r of
        Inl e \<Rightarrow> Inl e
      | Inr ((g1, g2), r') \<Rightarrow> Inr ((ind1\<lparr>genes := g1\<rparr>, ind2\<lparr>genes := g2\<rparr>), r'))"

definition split_individual ::
  "optimization_problem \<Rightarrow> int list \<Rightarrow> error + (int list \<times> int list \<times> int option)" where
  "split_individual self individual =
     (let discharge_hours_bin = py_slice individual 0 (prediction_hours self);
          eautocharge_hours_float =
            py_slice individual (prediction_hours self) (prediction_hours self * 2)
      in case opti_param self of
           None \<Rightarrow> Inr (discharge_hours_bin, eautocharge_hours_float, None)
         | Some haushaltsgeraete \<Rightarrow>
             (if 0 < haushaltsgeraete then
                (case py_last individual of
                   Inl e \<Rightarrow> Inl e
                 | Inr h \<Rightarrow> Inr (discharge_hours_bin, eautocharge_hours_float, Some h))
              else Inr (discharge_hours_bin, eautocharge_hours_float, None)))"

section \<open>The simulator and the fitness\<close>

text \<open>
  Modelled from the spec: the energy management system (\<^verbatim>\<open>EnergieManagementSystem\<close>,
  with its batteries) is a collaborator outside the source file. It is a state \<open>'s\<close>
  with the operations the optimiser calls; each operation returns the state it leaves
  behind, also when it raises. \<open>'d\<close> is the snapshot \<^verbatim>\<open>ems.eauto.to_dict()\<close>.
\<close>

type_synonym ('a, 's) action = "'s \<Rightarrow> (error + 'a) \<times> 's"

definition and_then :: "('a, 's) action \<Rightarrow> ('a \<Rightarrow> ('b, 's) action) \<Rightarrow> ('b, 's) action" where
  "and_then m f = (\<lambda>s. case m s of (Inl e, s') \<Rightarrow> (Inl e, s') | (Inr a, s') \<Rightarrow> f a s')"

definition pure_step :: "error + 'a \<Rightarrow> ('a, 's) action" where
  "pure_step x = (\<lambda>s. (x, s))"

text \<open>The dictionary returned by \<^verbatim>\<open>simuliere\<close>: two totals and the per-hour arrays.\<close>

datatype hourly = NpArray "npfloat list" | PyList "npfloat option list"

record outcome =
  Gesamtbilanz_Euro :: real
  Gesamt_Verluste :: real
  pro_stunde :: "string \<rightharpoonup> hourly"

record ('s, 'd) ems_ops =
  ems_reset :: "(unit, 's) action"
  set_haushaltsgeraet_start :: "int option \<Rightarrow> int \<Rightarrow> (unit, 's) action"
  set_akku_discharge_hours :: "int list \<Rightarrow> (unit, 's) action"
  set_akku_charge_hours :: "npfloat list \<Rightarrow> (unit, 's) action"
  set_eauto_charge_hours :: "real list \<Rightarrow> (unit, 's) action"
  simuliere :: "int \<Rightarrow> (outcome, 's) action"
  eauto_ladezustand_in_prozent :: "'s \<Rightarrow> real"
  akku_aktueller_energieinhalt :: "'s \<Rightarrow> real"
  eauto_to_dict :: "'s \<Rightarrow> 'd"

text \<open>
  \<^verbatim>\<open>start_solution\<close> is declared \<^verbatim>\<open>Optional[List[float]]\<close>; the membership test of
  \<^verbatim>\<open>optimize\<close> names the integer \<open>-1\<close> as a second way of giving none.
\<close>

datatype start_solution = StartNone | StartMinusOne | StartGenome "int list"

record parameter =
  einspeiseverguetung_euro_pro_wh :: real
  pv_akku_cap :: real
  pv_soc :: real
  min_soc_prozent :: real
  eauto_min_soc :: real
  eauto_soc :: real
  eauto_cap :: real
  eauto_charge_efficiency :: real
  eauto_charge_power :: real
  haushaltsgeraet_wh :: real
  haushaltsgeraet_dauer :: int
  gesamtlast :: "real list"
  pv_forecast :: "real list"
  strompreis_euro_pro_wh :: "real list"
  temperature_forecast :: "real list"
  preis_euro_pro_wh_akku :: real
  start_solution :: start_solution

definition evaluate_inner ::
  "('s, 'd) ems_ops \<Rightarrow> optimization_problem \<Rightarrow> int list \<Rightarrow> int \<Rightarrow> (outcome, 's) action" where
  "evaluate_inner ems self individual start_hour =
     and_then (ems_reset ems) (\<lambda>_.
     and_then (pure_step (split_individual self individual))
       (\<lambda>(discharge_hours_bin, eautocharge_hours_index, spuelstart_int).
     and_then (case opti_param self of
                 None \<Rightarrow> pure_step (Inl AttributeError)
               | Some haushaltsgeraete \<Rightarrow>
                   if 0 < haushaltsgeraete
                   then set_haushaltsgeraet_start ems spuelstart_int start_hour
                   else pure_step (Inr ())) (\<lambda>_.
     and_then (pure_step (split_charge_discharge discharge_hours_bin)) (\<lambda>(charge, discharge).
     and_then (set_akku_discharge_hours ems discharge) (\<lambda>_.
     and_then (set_akku_charge_hours ems charge) (\<lambda>_.
     and_then (if optimize_ev self then
                 and_then (pure_step (py_index_all (possible_charge_values self)
                                        eautocharge_hours_index))
                   (\<lambda>eautocharge_hours_float. set_eauto_charge_hours ems eautocharge_hours_float)
               else pure_step (Inr ())) (\<lambda>_.
     simuliere ems start_hour)))))))"

text \<open>
  The pieces of \<^verbatim>\<open>evaluate\<close>. \<open>idle_penalty\<close> is the sum of \<open>0.01\<close> over the hours
  \<open>i\<close> of \<open>range(prediction_hours)\<close> with \<open>discharge_hours_bin[i] == 0\<close>; reading past
  the end of the list raises. \<open>ev_charge_penalty\<close> is the sum of \<open>strafe\<close> over the
  non-zero entries of the EV slice, added under the condition the source tests.
\<close>

definition idle_penalty :: "int \<Rightarrow> int list \<Rightarrow> error + real" where
  "idle_penalty H discharge_hours_bin =
     (if nat H \<le> length discharge_hours_bin
      then Inr (sum_list (map (\<lambda>i. 0.01)
                  (filter (\<lambda>i. discharge_hours_bin ! i = 0) [0 ..< nat H])))
      else Inl IndexError)"

definition ev_charge_penalty :: "real \<Rightarrow> real \<Rightarrow> int list \<Rightarrow> real" where
  "ev_charge_penalty strafe' shortfall eautocharge_hours_float =
     (if shortfall \<le> 0
      then sum_list (map (\<lambda>ladeleistung. strafe')
             (filter (\<lambda>ladeleistung. ladeleistung \<noteq> 0) eautocharge_hours_float))
      else 0)"

definition evaluate ::
  "('s, 'd) ems_ops \<Rightarrow> optimization_problem \<Rightarrow> individual \<Rightarrow> parameter \<Rightarrow> int \<Rightarrow> bool
     \<Rightarrow> (real \<times> individual, 's) action" where
  "evaluate ems self ind parameter' start_hour worst_case s =
     (case evaluate_inner ems self (genes ind) start_hour s of
        (Inl e, s') \<Rightarrow> (Inr (100000, ind), s')
      | (Inr outcome', s') \<Rightarrow>
          (case split_individual self (genes ind) of
             Inl e \<Rightarrow> (Inl e, s')
           | Inr (discharge_hours_bin, eautocharge_hours_float, _) \<Rightarrow>
               (case idle_penalty (prediction_hours self) discharge_hours_bin of
                  Inl e \<Rightarrow> (Inl e, s')
                | Inr idle \<Rightarrow>
                    (let shortfall = eauto_min_soc parameter' - eauto_ladezustand_in_prozent ems s';
                         gesamtbilanz =
                           Gesamtbilanz_Euro outcome' * (if worst_case then - 1 else 1)
                           + idle
                           + ev_charge_penalty (strafe self) shortfall eautocharge_hours_float;
                         ind' = ind\<lparr>extra_data :=
                                  Some (Gesamtbilanz_Euro outcome', Gesamt_Verluste outcome', shortfall)\<rparr>;
                         restwert_akku =
                           akku_aktueller_energieinhalt ems s' * preis_euro_pro_wh_akku parameter'
                     in (Inr (gesamtbilanz + (max 0 (shortfall * strafe self) - restwert_akku),
                              ind'),
                         s')))))"

section \<open>The evolutionary run\<close>

text \<open>
  Modelled from the spec: \<^verbatim>\<open>algorithms.eaMuPlusLambda\<close> (the \<open>\<mu>+\<lambda>\<close> loop of the
  library), the constructors of the batteries, the inverter, the appliance and the
  energy management system, and \<^verbatim>\<open>visualisiere_ergebnisse\<close> are collaborators outside
  the source file. The loop receives what \<^verbatim>\<open>optimize\<close> hands to it and returns the
  final population and the hall of fame.
\<close>

record 's ea_call =
  ea_population :: "individual list"
  ea_evaluate :: "individual \<Rightarrow> (real \<times> individual, 's) action"
  ea_mate :: "individual \<Rightarrow> individual \<Rightarrow> rng \<Rightarrow> error + ((individual \<times> individual) \<times> rng)"
  ea_mutate :: "individual \<Rightarrow> rng \<Rightarrow> error + (individual \<times> rng)"
  ea_mu :: nat
  ea_lambda :: nat
  ea_cxpb :: real
  ea_mutpb :: real
  ea_ngen :: int
  ea_verbose :: bool

type_synonym 's ea_loop =
  "'s ea_call \<Rightarrow> rng \<Rightarrow> 's \<Rightarrow> error + ((individual list \<times> individual list) \<times> rng \<times> 's)"

record member =
  bilanz :: "real list"
  verluste :: "real list"
  nebenbedingung :: "real list"

definition collect_member :: "individual list \<Rightarrow> member" where
  "collect_member population =
     (let extra = List.map_filter extra_data population
      in \<lparr> bilanz = map (\<lambda>(a, b, c). a) extra,
           verluste = map (\<lambda>(a, b, c). b) extra,
           nebenbedingung = map (\<lambda>(a, b, c). c) extra \<rparr>)"

text \<open>
  Lines 258 to 261 of \<^verbatim>\<open>optimize\<close>: unless the start solution is \<open>None\<close> or \<open>-1\<close>, a
  fresh individual made of it is inserted at index 0, three times.
\<close>

definition insert_start_solution :: "start_solution \<Rightarrow> individual list \<Rightarrow> individual list" where
  "insert_start_solution start population =
     (case start of
        StartNone \<Rightarrow> population
      | StartMinusOne \<Rightarrow> population
      | StartGenome g \<Rightarrow>
          ((\<lambda>pop. \<lparr> genes = g, extra_data = None \<rparr> # pop) ^^ 3) population)"

definition optimize ::
  "'s ea_loop \<Rightarrow> optimization_problem \<Rightarrow> (individual \<Rightarrow> (real \<times> individual, 's) action)
     \<Rightarrow> start_solution \<Rightarrow> int \<Rightarrow> rng \<Rightarrow> 's
     \<Rightarrow> error + ((individual \<times> member) \<times> rng \<times> 's)" where
  "optimize eaMuPlusLambda self toolbox_evaluate start ngen r s =
     (case draw_n (create_individual self) 300 r of
        Inl e \<Rightarrow> Inl e
      | Inr (population, r1) \<Rightarrow>
          (case eaMuPlusLambda
                  \<lparr> ea_population = insert_start_solution start population,
                    ea_evaluate = toolbox_evaluate,
                    ea_mate = mate,
                    ea_mutate = mutate self,
                    ea_mu = 100,
                    ea_lambda = 150,
                    ea_cxpb = 1 / 2,
                    ea_mutpb = 1 / 2,
                    ea_ngen = ngen,
                    ea_verbose = verbose self \<rparr> r1 s of
             Inl e \<Rightarrow> Inl e
           | Inr ((population', hof), r2, s2) \<Rightarrow>
               (case hof of
                  [] \<Rightarrow> Inl IndexError
                | best # _ \<Rightarrow> Inr ((best, collect_member population'), r2, s2))))"

subsection \<open>The entry point\<close>

record ('s, 'd) collaborators =
  co_ems :: "('s, 'd) ems_ops"
  eaMuPlusLambda :: "'s ea_loop"
  make_ems :: "parameter \<Rightarrow> int \<Rightarrow> real list \<Rightarrow> bool \<Rightarrow> error + 's"
  visualisiere_ergebnisse ::
    "parameter \<Rightarrow> outcome \<Rightarrow> int list \<Rightarrow> int list \<Rightarrow> int \<Rightarrow> int \<Rightarrow> real list \<Rightarrow> member
       \<Rightarrow> error option"

record 'd ems_result =
  res_discharge_hours_bin :: "int list"
  res_eautocharge_hours_float :: "int list"
  res_result :: outcome
  res_eauto_obj :: 'd
  res_start_solution :: individual
  res_spuelstart :: "int option"
  res_simulation_data :: outcome

text \<open>Lines 313 to 315: the EV genes are optimised unless the minimum is below the start.\<close>

definition auto_disable_ev :: "optimization_problem \<Rightarrow> parameter \<Rightarrow> optimization_problem" where
  "auto_disable_ev self parameter' =
     (if eauto_min_soc parameter' - eauto_soc parameter' < 0
      then self\<lparr>optimize_ev := False\<rparr>
      else self\<lparr>optimize_ev := True\<rparr>)"

definition keys_to_modify :: "string list" where
  "keys_to_modify =
     [''Last_Wh_pro_Stunde'', ''Netzeinspeisung_Wh_pro_Stunde'', ''akku_soc_pro_stunde'',
      ''Netzbezug_Wh_pro_Stunde'', ''Kosten_Euro_pro_Stunde'', ''Einnahmen_Euro_pro_Stunde'',
      ''E-Auto_SoC_pro_Stunde'', ''Verluste_Pro_Stunde'', ''Haushaltsgeraet_wh_pro_stunde'']"

text \<open>
  One round of the loop over the keys: the array becomes a list, its first element
  and every \<open>nan\<close> become \<open>None\<close>.
\<close>

definition modify_key :: "string \<Rightarrow> outcome \<Rightarrow> error + outcome" where
  "modify_key key out =
     (case pro_stunde out key of
        None \<Rightarrow> Inl KeyError
      | Some (PyList _) \<Rightarrow> Inl AttributeError
      | Some (NpArray a) \<Rightarrow>
          (case map Some a of
             [] \<Rightarrow> Inl IndexError
           | _ # rest \<Rightarrow>
               Inr (out\<lparr>pro_stunde := (pro_stunde out)
                      (key \<mapsto> PyList (map (\<lambda>x. if x = Some NaN then None else x)
                                       (None # rest)))\<rparr>)))"

fun modify_keys :: "string list \<Rightarrow> outcome \<Rightarrow> error + outcome" where
  "modify_keys [] out = Inr out"
| "modify_keys (key # keys) out =
     (case modify_key key out of
        Inl e \<Rightarrow> Inl e
      | Inr out' \<Rightarrow> modify_keys keys out')"

definition optimierung_ems ::
  "('s, 'd) collaborators \<Rightarrow> optimization_problem \<Rightarrow> parameter \<Rightarrow> int \<Rightarrow> bool \<Rightarrow> 't option
     \<Rightarrow> int \<Rightarrow> rng \<Rightarrow> error + ('d ems_result \<times> optimization_problem \<times> rng \<times> 's)" where
  "optimierung_ems co self parameter' start_hour worst_case startdate ngen r =
     (case np_full (prediction_hours self) (einspeiseverguetung_euro_pro_wh parameter') of
        Inl e \<Rightarrow> Inl e
      | Inr einspeiseverguetung \<Rightarrow>
     (let self1 = auto_disable_ev self parameter';
          spuelmaschine = (0 < haushaltsgeraet_dauer parameter')
      in case make_ems co parameter' (prediction_hours self) einspeiseverguetung spuelmaschine of
           Inl e \<Rightarrow> Inl e
         | Inr s0 \<Rightarrow>
     (let self2 = setup_deap_environment self1 (if spuelmaschine then 1 else 0) start_hour
      in case optimize (eaMuPlusLambda co) self2
                (\<lambda>ind. evaluate (co_ems co) self2 ind parameter' start_hour worst_case)
                (start_solution parameter') ngen r s0 of
           Inl e \<Rightarrow> Inl e
         | Inr ((best, extra), r1, s1) \<Rightarrow>
     (case evaluate_inner (co_ems co) self2 (genes best) start_hour s1 of
        (Inl e, s2) \<Rightarrow> Inl e
      | (Inr out, s2) \<Rightarrow>
     (case split_individual self2 (genes best) of
        Inl e \<Rightarrow> Inl e
      | Inr (discharge_hours_bin, eautocharge_hours_float, spuelstart_int) \<Rightarrow>
     (case visualisiere_ergebnisse co parameter' out discharge_hours_bin
             eautocharge_hours_float start_hour (prediction_hours self) einspeiseverguetung
             extra of
        Some e \<Rightarrow> Inl e
      | None \<Rightarrow>
     (case modify_keys keys_to_modify out of
        Inl e \<Rightarrow> Inl e
      | Inr out' \<Rightarrow>
          Inr (\<lparr> res_discharge_hours_bin = discharge_hours_bin,
                 res_eautocharge_hours_float = eautocharge_hours_float,
                 res_result = out',
                 res_eauto_obj = eauto_to_dict (co_ems co) s2,
                 res_start_solution = best,
                 res_spuelstart = spuelstart_int,
                 res_simulation_data = out' \<rparr>,
               self2, r1, s2))))))))"

subsection \<open>The fitness as the specification words it\<close>

text \<open>
  For comparison with \<^verbatim>\<open>evaluate\<close>, the fitness of section 4.D of the specification,
  written from its words and not from the source: the signed balance, \<open>0.01\<close> per hour
  whose battery action gene is 0, the EV under-SoC penalty (\<open>P\<close> per hour whose EV
  current is non-zero, if \<open>ev_min_soc - ev_final_soc > 0\<close>, else 0), the residual battery
  value subtracted, and the shortfall penalty.
\<close>

definition spec_ev_under_soc_penalty :: "real \<Rightarrow> real \<Rightarrow> real \<Rightarrow> real list \<Rightarrow> real" where
  "spec_ev_under_soc_penalty P ev_min_soc ev_final_soc ev_currents =
     (if 0 < ev_min_soc - ev_final_soc
      then P * real (length (filter (\<lambda>c. c \<noteq> 0) ev_currents))
      else 0)"

definition spec_fitness ::
  "bool \<Rightarrow> real \<Rightarrow> int list \<Rightarrow> real list \<Rightarrow> real \<Rightarrow> real \<Rightarrow> real \<Rightarrow> real \<Rightarrow> real \<Rightarrow> real" where
  "spec_fitness worst_case total_balance_eur battery_actions ev_currents ev_min_soc
       ev_final_soc P battery_energy_wh pi_akku =
     (if worst_case then - 1 else 1) * total_balance_eur
     + 0.01 * real (length (filter (\<lambda>g. g = 0) battery_actions))
     + spec_ev_under_soc_penalty P ev_min_soc ev_final_soc ev_currents
     + max 0 ((ev_min_soc - ev_final_soc) * P)
     - battery_energy_wh * pi_akku"

section \<open>Gene domains\<close>

text \<open>
  The domains the toolbox registers: battery genes in \<open>-5..1\<close>, EV genes indices into
  the table of currents, the appliance gene in \<open>start_hour..23\<close>. The layout is the one
  \<^verbatim>\<open>create_individual\<close> builds: \<open>prediction_hours\<close> battery genes, then as many EV
  genes when \<open>optimize_ev\<close> is set, then one appliance gene when
  \<^verbatim>\<open>opti_param["haushaltsgeraete"] > 0\<close>.
\<close>

definition has_appliance :: "optimization_problem \<Rightarrow> bool" where
  "has_appliance self = (case opti_param self of None \<Rightarrow> False | Some h \<Rightarrow> 0 < h)"

definition battery_gene_ok :: "int \<Rightarrow> bool" where
  "battery_gene_ok x = (- 5 \<le> x \<and> x \<le> 1)"

definition ev_gene_ok :: "optimization_problem \<Rightarrow> int \<Rightarrow> bool" where
  "ev_gene_ok self x = (0 \<le> x \<and> x \<le> int (length (possible_charge_values self)) - 1)"

definition hour_gene_ok :: "toolbox \<Rightarrow> int \<Rightarrow> bool" where
  "hour_gene_ok tb x = (tb_start_hour tb \<le> x \<and> x \<le> 23)"

definition ev_region :: "optimization_problem \<Rightarrow> nat" where
  "ev_region self = (if optimize_ev self then nat (prediction_hours self) else 0)"

definition genes_in_domain :: "optimization_problem \<Rightarrow> int list \<Rightarrow> bool" where
  "genes_in_domain self g =
     (case toolbox self of
        None \<Rightarrow> False
      | Some tb \<Rightarrow>
          length g = nat (prediction_hours self) + ev_region self
                       + (if has_appliance self then 1 else 0)
          \<and> list_all battery_gene_ok (take (nat (prediction_hours self)) g)
          \<and> list_all (ev_gene_ok self)
                (take (ev_region self) (drop (nat (prediction_hours self)) g))
          \<and> (if has_appliance self then hour_gene_ok tb (last g) else True))"

text \<open>
  The locked tail: the EV genes at the positions
  \<open>2 * prediction_hours - fixed_eauto_hours\<close> up to \<open>2 * prediction_hours\<close>.
\<close>

definition locked_tail_zero :: "optimization_problem \<Rightarrow> int list \<Rightarrow> bool" where
  "locked_tail_zero self g =
     list_all (\<lambda>x. x = 0)
       (drop (nat (2 * prediction_hours self - fixed_eauto_hours self))
          (take (nat (2 * prediction_hours self)) g))"

section \<open>Concrete instances\<close>

text \<open>
  A simulator that accepts every setting and reports a fixed outcome, a fixed final EV
  state of charge and a fixed battery content, and a problem object as the constructor
  and the setup leave it. They serve to run the functions above on concrete inputs.
\<close>

definition constant_ems :: "outcome \<Rightarrow> real \<Rightarrow> real \<Rightarrow> (unit, unit) ems_ops" where
  "constant_ems out soc energy =
     \<lparr> ems_reset = pure_step (Inr ()),
       set_haushaltsgeraet_start = (\<lambda>_ _. pure_step (Inr ())),
       set_akku_discharge_hours = (\<lambda>_. pure_step (Inr ())),
       set_akku_charge_hours = (\<lambda>_. pure_step (Inr ())),
       set_eauto_charge_hours = (\<lambda>_. pure_step (Inr ())),
       simuliere = (\<lambda>_. pure_step (Inr out)),
       eauto_ladezustand_in_prozent = (\<lambda>_. soc),
       akku_aktueller_energieinhalt = (\<lambda>_. energy),
       eauto_to_dict = (\<lambda>_. ()) \<rparr>"

definition zero_outcome :: outcome where
  "zero_outcome = \<lparr> Gesamtbilanz_Euro = 0, Gesamt_Verluste = 0, pro_stunde = Map.empty \<rparr>"

text \<open>
  Two prediction hours, of which \<open>optimization_hours\<close> are open to EV charging, penalty
  weight 10, a table of two currents, set up with \<open>haushaltsgeraete\<close> appliances and
  start hour 8.
\<close>

definition small_problem :: "int \<Rightarrow> int \<Rightarrow> optimization_problem" where
  "small_problem optimization_hours haushaltsgeraete =
     setup_deap_environment (init [0, 6] 2 10 optimization_hours False None) haushaltsgeraete 8"

definition small_parameter :: "real \<Rightarrow> real \<Rightarrow> real \<Rightarrow> parameter" where
  "small_parameter min_soc soc preis =
     \<lparr> einspeiseverguetung_euro_pro_wh = 0, pv_akku_cap = 0, pv_soc = 0, min_soc_prozent = 0,
       eauto_min_soc = min_soc, eauto_soc = soc, eauto_cap = 0, eauto_charge_efficiency = 1,
       eauto_charge_power = 0, haushaltsgeraet_wh = 0, haushaltsgeraet_dauer = 0,
       gesamtlast = [], pv_forecast = [], strompreis_euro_pro_wh = [],
       temperature_forecast = [], preis_euro_pro_wh_akku = preis, start_solution = StartNone \<rparr>"


text \<open>
  An outcome that has every per-hour array, and collaborators around the constant
  simulator: the loop that runs no generation, constructors and a plot that succeed.
\<close>

definition hourly_outcome :: outcome where
  "hourly_outcome =
     \<lparr> Gesamtbilanz_Euro = 5, Gesamt_Verluste = 1,
       pro_stunde = (\<lambda>key. Some (NpArray [Finite 5, NaN, Finite 1])) \<rparr>"

text \<open>A loop that runs no generation: the population stays, its head is the hall of fame.\<close>

definition idle_loop :: "unit ea_loop" where
  "idle_loop call r s = Inr ((ea_population call, take 1 (ea_population call)), r, s)"

definition sample_collaborators :: "(unit, unit) collaborators" where
  "sample_collaborators =
     \<lparr> co_ems = constant_ems hourly_outcome 50 0,
       eaMuPlusLambda = idle_loop,
       make_ems = (\<lambda>_ _ _ _. Inr ()),
       visualisiere_ergebnisse = (\<lambda>_ _ _ _ _ _ _ _. None) \<rparr>"

section \<open>Properties\<close>

lemma fold_max_zero: "\<forall>x \<in> set xs. x = (0::int) \<Longrightarrow> fold max xs 0 = 0"
  by (induction xs) auto

lemma np_max_all_zero:
  assumes "xs \<noteq> []" and "\<forall>x \<in> set xs. x = (0::int)"
  shows "np_max xs = Inr 0"
proof (cases xs)
  case Nil
  with assms show ?thesis by simp
next
  case (Cons y ys)
  with assms have "y = 0" and "\<forall>x \<in> set ys. x = 0" by auto
  with Cons show ?thesis by (simp add: fold_max_zero)
qed

text \<open>
  With no negative gene the charge array is all zeros before the division, its maximum is
  zero, and every entry becomes \<open>0/0 = nan\<close>; the discharge array is \<open>max gene 0\<close>.
\<close>

lemma split_charge_discharge_nonneg:
  assumes "bin \<noteq> []" and "\<forall>x \<in> set bin. 0 \<le> x"
  shows "split_charge_discharge bin = Inr (replicate (length bin) NaN, map (max 0) bin)"
proof -
  let ?charge = "map (\<lambda>x. - (if x < 0 then x else 0)) bin"
  from assms(2) have z: "?charge = replicate (length bin) 0"
    by (induction bin) auto
  from assms(1) have "np_max (replicate (length bin) 0) = Inr 0"
    by (intro np_max_all_zero) auto
  moreover have "map (\<lambda>x. if 0 < x then x else 0) bin = map (max 0) bin"
    by (rule map_cong) (auto simp: max_def)
  ultimately show ?thesis
    unfolding split_charge_discharge_def Let_def z
    by (simp add: np_true_divide_def)
qed

text \<open>
  C1. Claimed: when all battery genes are non-negative the decoded charge vector is the
  zero vector, with no division by zero. On the genes \<open>[0, 1, 0]\<close> the source divides
  the zero array by its maximum \<open>0\<close>: the charge array is \<open>[nan, nan, nan]\<close>, and the
  discharge array is \<open>[0, 1, 0]\<close>.
\<close>

theorem split_charge_discharge_all_nonneg_nan:
  "split_charge_discharge [0, 1, 0] = Inr ([NaN, NaN, NaN], [0, 1, 0])"
  by (simp add: split_charge_discharge_def np_true_divide_def)

subsection \<open>The fitness\<close>

lemmas run_defs =
  evaluate_def evaluate_inner_def and_then_def pure_step_def constant_ems_def
  small_problem_def init_def setup_deap_environment_def split_individual_def
  py_slice_def py_bound_def py_last_def split_charge_discharge_def np_true_divide_def
  py_index_def idle_penalty_def ev_charge_penalty_def small_parameter_def
  zero_outcome_def Let_def


lemma sum_list_const: "sum_list (map (\<lambda>i. c) xs) = (c::real) * real (length xs)"
  by (induction xs) (simp_all add: algebra_simps)



lemma ev_charge_penalty_eq:
  "ev_charge_penalty P shortfall ev
     = (if shortfall \<le> 0 then P * real (length (filter (\<lambda>l. l \<noteq> 0) ev)) else 0)"
  by (simp add: ev_charge_penalty_def sum_list_const)



text \<open>
  C2. Claimed: the penalty of \<open>strafe\<close> per hour with a non-zero EV gene is added exactly
  when the shortfall \<open>eauto_min_soc - ladezustand\<close> is positive. The source tests
  \<open>shortfall <= 0\<close>. With minimum 80 and one non-zero EV gene: at a final state of
  charge of 100 (constraint met) the fitness contains the penalty 10; at 50 (shortfall
  30) it is the shortfall term 300 alone.
\<close>

theorem evaluate_ev_penalty_inverted:
  "fst (evaluate (constant_ems zero_outcome 100 0) (small_problem 2 0)
          \<lparr>genes = [1, 1, 1, 0], extra_data = None\<rparr> (small_parameter 80 20 0) 8 False ())
     = Inr (10, \<lparr>genes = [1, 1, 1, 0], extra_data = Some (0, 0, - 20)\<rparr>)
   \<and> fst (evaluate (constant_ems zero_outcome 50 0) (small_problem 2 0)
          \<lparr>genes = [1, 1, 1, 0], extra_data = None\<rparr> (small_parameter 80 20 0) 8 False ())
     = Inr (300, \<lparr>genes = [1, 1, 1, 0], extra_data = Some (0, 0, 30)\<rparr>)"
  by (simp add: run_defs upt_rec)

text \<open>
  C3. Claimed: the fitness of a genome whose simulation succeeds is the signed balance
  plus \<open>0.01\<close> per idle hour plus the EV under-SoC penalty plus
  \<open>max 0 (shortfall * P)\<close> minus the residual battery value. With two prediction
  hours, genes \<open>[0, 1, 1, 0]\<close> (EV currents \<open>[6, 0]\<close>), minimum 80, final state of
  charge 50, balance 5 in worst-case mode, battery content 100 at price \<open>0.01\<close>, the
  claimed value is \<open>-5 + 0.01 + 10 + 300 - 1 = 304.01\<close>. \<^verbatim>\<open>evaluate\<close> returns
  \<open>294.01\<close>: its EV penalty is taken under \<open>shortfall <= 0\<close> and is absent here.
  All other terms agree.
\<close>

theorem evaluate_differs_from_spec_fitness:
  "fst (evaluate (constant_ems (zero_outcome\<lparr>Gesamtbilanz_Euro := 5\<rparr>) 50 100)
          (small_problem 2 0) \<lparr>genes = [0, 1, 1, 0], extra_data = None\<rparr>
          (small_parameter 80 20 (1 / 100)) 8 True ())
     = Inr (29401 / 100, \<lparr>genes = [0, 1, 1, 0], extra_data = Some (5, 0, 30)\<rparr>)
   \<and> py_index_all (possible_charge_values (small_problem 2 0)) [1, 0] = Inr [6, 0]
   \<and> spec_fitness True 5 [0, 1] [6, 0] 80 50 10 100 (1 / 100) = 30401 / 100"
proof -
  have 1: "fst (evaluate (constant_ems (zero_outcome\<lparr>Gesamtbilanz_Euro := 5\<rparr>) 50 100)
          (small_problem 2 0) \<lparr>genes = [0, 1, 1, 0], extra_data = None\<rparr>
          (small_parameter 80 20 (1 / 100)) 8 True ())
     = Inr (29401 / 100, \<lparr>genes = [0, 1, 1, 0], extra_data = Some (5, 0, 30)\<rparr>)"
    by (simp add: run_defs upt_rec)
  have 2: "py_index_all (possible_charge_values (small_problem 2 0)) [1, 0] = Inr [6, 0]"
    by (simp add: small_problem_def init_def setup_deap_environment_def py_index_def)
  have 3: "spec_fitness True 5 [0, 1] [6, 0] 80 50 10 100 (1 / 100) = 30401 / 100"
    by (simp add: spec_fitness_def spec_ev_under_soc_penalty_def)
  from 1 2 3 show ?thesis by (intro conjI)
qed

text \<open>
  C7. When the simulation or the decoding inside \<^verbatim>\<open>evaluate_inner\<close> raises,
  \<^verbatim>\<open>evaluate\<close> returns the fitness 100000 and leaves the individual as it was: no
  diagnostic tuple is stored.
\<close>

theorem evaluate_exception_sentinel:
  assumes "evaluate_inner sim self (genes ind) start_hour s = (Inl e, s')"
  shows "evaluate sim self ind p start_hour worst_case s = (Inr (100000, ind), s')"
  using assms by (simp add: evaluate_def)

theorem evaluate_exception_sentinel_witness:
  "evaluate_inner ((constant_ems zero_outcome 50 0)
        \<lparr>simuliere := \<lambda>_. pure_step (Inl (RuntimeError ''simulation''))\<rparr>)
       (small_problem 2 0) [0, 1, 1, 0] 8 ()
     = (Inl (RuntimeError ''simulation''), ())
   \<and> evaluate ((constant_ems zero_outcome 50 0)
        \<lparr>simuliere := \<lambda>_. pure_step (Inl (RuntimeError ''simulation''))\<rparr>)
       (small_problem 2 0) \<lparr>genes = [0, 1, 1, 0], extra_data = None\<rparr>
       (small_parameter 80 20 0) 8 False ()
     = (Inr (100000, \<lparr>genes = [0, 1, 1, 0], extra_data = None\<rparr>), ())"
proof -
  let ?sim = "(constant_ems zero_outcome 50 0)
                \<lparr>simuliere := \<lambda>_. pure_step (Inl (RuntimeError ''simulation''))\<rparr>"
  let ?ind = "\<lparr>genes = [0, 1, 1, 0], extra_data = None\<rparr>"
  have run: "evaluate_inner ?sim (small_problem 2 0) (genes ?ind) 8 ()
               = (Inl (RuntimeError ''simulation''), ())"
    by (simp add: run_defs)
  from evaluate_exception_sentinel [OF run, of "small_parameter 80 20 0" False] run
  show ?thesis by simp
qed

subsection \<open>Creating an individual\<close>

lemma draw_n_length: "draw_n f n r = Inr (xs, r') \<Longrightarrow> length xs = n"
  by (induction n arbitrary: r xs) (auto split: sum.splits prod.splits)

lemma randint_range: "randint a b r = Inr (v, r') \<Longrightarrow> a \<le> v \<and> v \<le> b"
proof -
  assume h: "randint a b r = Inr (v, r')"
  then have ab: "a \<le> b" and v: "v = a + int (shd r mod nat (b - a + 1))"
    by (auto simp: randint_def split: if_splits)
  from ab have "0 < nat (b - a + 1)" by simp
  then have "shd r mod nat (b - a + 1) < nat (b - a + 1)" by (rule mod_less_divisor)
  with ab v show ?thesis by linarith
qed

lemma draw_n_all:
  assumes "\<And>r v r'. f r = Inr (v, r') \<Longrightarrow> P v"
  shows "draw_n f n r = Inr (xs, r') \<Longrightarrow> list_all P xs"
proof (induction n arbitrary: r xs)
  case 0
  then show ?case by simp
next
  case (Suc n)
  then show ?case
    by (auto split: sum.splits prod.splits dest: assms)
qed

lemma draw_n_randint:
  "draw_n (randint a b) n r = Inr (xs, r') \<Longrightarrow> list_all (\<lambda>x. a \<le> x \<and> x \<le> b) xs"
  by (rule draw_n_all [where f = "randint a b"]) (rule randint_range)

lemma create_individual_parts:
  assumes "create_individual self r = Inr (ind, r')"
  obtains tb d e a where
    "toolbox self = Some tb"
    "genes ind = d @ e @ a"
    "length d = nat (prediction_hours self)" "list_all battery_gene_ok d"
    "length e = ev_region self" "list_all (ev_gene_ok self) e"
    "if has_appliance self then (\<exists>h. a = [h] \<and> hour_gene_ok tb h) else a = []"
proof -
  let ?H = "nat (prediction_hours self)"
  from assms obtain tb where tb: "toolbox self = Some tb"
    by (auto simp: create_individual_def split: option.splits)
  from assms tb obtain d r1 where d: "draw_n (randint (- 5) 1) ?H r = Inr (d, r1)"
    by (auto simp: create_individual_def split: sum.splits)
  let ?ev = "if optimize_ev self then
               draw_n (if tb_has_ev tb
                       then randint 0 (int (length (possible_charge_values self)) - 1)
                       else (\<lambda>_. Inl AttributeError)) ?H r1
             else Inr ([], r1)"
  from assms tb d obtain e r2 where e: "?ev = Inr (e, r2)"
    by (auto simp: create_individual_def split: sum.splits)
  from assms tb d e obtain hg where hg: "opti_param self = Some hg"
    by (auto simp: create_individual_def split: option.splits)
  have dl: "length d = ?H" using d by (rule draw_n_length)
  have dd: "list_all battery_gene_ok d"
    using draw_n_randint [OF d] by (simp add: battery_gene_ok_def [abs_def])
  have el: "length e = ev_region self"
    using e by (auto simp: ev_region_def split: if_splits dest: draw_n_length)
  have ed: "list_all (ev_gene_ok self) e"
  proof (cases "optimize_ev self")
    case True
    let ?f = "if tb_has_ev tb
              then randint 0 (int (length (possible_charge_values self)) - 1)
              else (\<lambda>_. Inl AttributeError)"
    from True e have "draw_n ?f ?H r1 = Inr (e, r2)" by simp
    moreover have "ev_gene_ok self v" if "?f r = Inr (v, r')" for r v r'
      using that by (auto simp: ev_gene_ok_def split: if_splits dest: randint_range)
    ultimately show ?thesis by (rule draw_n_all [rotated])
  next
    case False
    with e show ?thesis by simp
  qed
  show thesis
  proof (cases "0 < hg")
    case True
    with assms tb d e hg obtain h r3 where
      h: "randint (tb_start_hour tb) 23 r2 = Inr (h, r3)" and g: "genes ind = d @ e @ [h]"
      by (auto simp: create_individual_def split: sum.splits)
    from randint_range [OF h] True hg have
      "if has_appliance self then (\<exists>h'. [h] = [h'] \<and> hour_gene_ok tb h') else [h] = []"
      by (simp add: has_appliance_def hour_gene_ok_def)
    with tb g dl dd el ed show ?thesis by (rule that)
  next
    case False
    with assms tb d e hg have g: "genes ind = d @ e @ []"
      by (auto simp: create_individual_def)
    from False hg have
      "if has_appliance self then (\<exists>h'. [] = [h'] \<and> hour_gene_ok tb h') else [] = ([]::int list)"
      by (simp add: has_appliance_def)
    with tb g dl dd el ed show ?thesis by (rule that)
  qed
qed

lemma create_individual_domain:
  assumes "create_individual self r = Inr (ind, r')"
  shows "genes_in_domain self (genes ind)"
  using assms
  by (rule create_individual_parts) (auto simp: genes_in_domain_def split: if_splits)

lemmas setup_defs =
  small_problem_def init_def setup_deap_environment_def auto_disable_ev_def
  small_parameter_def

text \<open>
  C4. Claimed: every created individual has length \<open>2H\<close> plus one when an appliance
  is present, also when EV optimisation is disabled. With the minimum state of charge
  20 below the start 50 the EV genes are switched off, and for \<open>H = 2\<close> without an
  appliance the created individual has 2 genes, not 4.
\<close>

theorem create_individual_length_counterexample:
  "create_individual
       (setup_deap_environment
          (auto_disable_ev (init [0, 6] 2 10 2 False None) (small_parameter 20 50 0)) 0 8)
       (sconst 1)
     = Inr (\<lparr>genes = [- 4, - 4], extra_data = None\<rparr>, sconst 1)
   \<and> 2 * nat (prediction_hours
        (setup_deap_environment
          (auto_disable_ev (init [0, 6] 2 10 2 False None) (small_parameter 20 50 0)) 0 8))
     = 4"
  by (simp add: create_individual_def setup_defs randint_def numeral_2_eq_2)

text \<open>
  C4, as the source has it: a created individual has \<open>prediction_hours\<close> battery genes,
  \<open>prediction_hours\<close> EV genes only when \<open>optimize_ev\<close> is set, and one appliance gene
  exactly when an appliance is present. So the length is \<open>2H\<close> or \<open>2H + 1\<close> with EV
  optimisation, and \<open>H\<close> or \<open>H + 1\<close> without.
\<close>

theorem create_individual_length:
  assumes "create_individual self r = Inr (ind, r')"
  shows "length (genes ind)
           = nat (prediction_hours self)
             + (if optimize_ev self then nat (prediction_hours self) else 0)
             + (if has_appliance self then 1 else 0)"
  using assms
  by (rule create_individual_parts) (auto simp: ev_region_def split: if_splits)

theorem create_individual_length_witness:
  "create_individual (small_problem 1 1) (sconst 1)
     = Inr (\<lparr>genes = [- 4, - 4, 1, 1, 9], extra_data = None\<rparr>, sconst 1)
   \<and> length (genes \<lparr>genes = [- 4, - 4, 1, 1, 9], extra_data = None\<rparr>) = 2 + 2 + 1"
proof -
  have c: "create_individual (small_problem 1 1) (sconst 1)
             = Inr (\<lparr>genes = [- 4, - 4, 1, 1, 9], extra_data = None\<rparr>, sconst 1)"
    by (simp add: create_individual_def setup_defs randint_def numeral_2_eq_2)
  from create_individual_length [OF c] c show ?thesis
    by (simp add: setup_defs has_appliance_def)
qed

subsection \<open>The automatic switch-off of EV optimisation\<close>







subsection \<open>The start solution\<close>

lemma insert_start_genome:
  "insert_start_solution (StartGenome g) population
     = replicate 3 \<lparr>genes = g, extra_data = None\<rparr> @ population"
  by (simp add: insert_start_solution_def numeral_3_eq_3)

lemma optimize_start_genome:
  assumes "draw_n (create_individual self) 300 r = Inr (population, r1)"
  shows "optimize loop self ev (StartGenome g) ngen r s =
     (case loop \<lparr> ea_population = replicate 3 \<lparr>genes = g, extra_data = None\<rparr> @ population,
                  ea_evaluate = ev, ea_mate = mate, ea_mutate = mutate self,
                  ea_mu = 100, ea_lambda = 150, ea_cxpb = 1 / 2, ea_mutpb = 1 / 2,
                  ea_ngen = ngen, ea_verbose = verbose self \<rparr> r1 s of
        Inl e \<Rightarrow> Inl e
      | Inr ((population', hof), r2, s2) \<Rightarrow>
          (case hof of
             [] \<Rightarrow> Inl IndexError
           | best # _ \<Rightarrow> Inr ((best, collect_member population'), r2, s2)))"
  using assms by (simp add: optimize_def insert_start_genome)

lemma draw_n_const: "f r = Inr (x, r) \<Longrightarrow> draw_n f n r = Inr (replicate n x, r)"
  by (induction n) simp_all

lemma map_filter_none: "\<forall>x \<in> set xs. f x = None \<Longrightarrow> List.map_filter f xs = []"
  by (induction xs) (simp_all add: List.map_filter_simps)

lemma small_population:
  "draw_n (create_individual (small_problem 2 0)) 300 (sconst 1)
     = Inr (replicate 300 \<lparr>genes = [- 4, - 4, 1, 1], extra_data = None\<rparr>, sconst 1)"
  by (rule draw_n_const)
     (simp add: create_individual_def setup_defs randint_def numeral_2_eq_2)

text \<open>
  C8. Claimed: a start solution of the wrong length is rejected before the loop starts.
  \<^verbatim>\<open>optimize\<close> has no such check. With \<open>prediction_hours = 2\<close> and no appliance a
  genome has 4 genes; the start solution \<open>[0]\<close> is inserted all the same, and a loop
  that runs no generation returns it as the best individual.
\<close>

theorem optimize_start_solution_counterexample:
  "optimize idle_loop (small_problem 2 0)
       (\<lambda>ind. evaluate (constant_ems zero_outcome 50 0) (small_problem 2 0) ind
                 (small_parameter 80 20 0) 8 False)
       (StartGenome [0]) 400 (sconst 1) ()
     = Inr ((\<lparr>genes = [0], extra_data = None\<rparr>,
             \<lparr>bilanz = [], verluste = [], nebenbedingung = []\<rparr>), sconst 1, ())
   \<and> length [0::int] \<noteq> 2 * nat (prediction_hours (small_problem 2 0))"
proof -
  have "length [0::int] \<noteq> 2 * nat (prediction_hours (small_problem 2 0))"
    by (simp add: setup_defs)
  then show ?thesis
    unfolding optimize_start_genome [OF small_population]
    by (simp add: idle_loop_def collect_member_def map_filter_none numeral_3_eq_3)
qed

text \<open>
  C8, as the source has it. For a start solution that is a gene list of any length,
  once the 300 individuals are created, the loop is started on three fresh copies of
  the start solution followed by those individuals; \<^verbatim>\<open>optimize\<close> checks no length.
\<close>

theorem optimize_start_solution_unchecked:
  assumes "draw_n (create_individual self) 300 r = Inr (population, r1)"
  shows "optimize loop self ev (StartGenome g) ngen r s =
     (case loop \<lparr> ea_population = replicate 3 \<lparr>genes = g, extra_data = None\<rparr> @ population,
                  ea_evaluate = ev, ea_mate = mate, ea_mutate = mutate self,
                  ea_mu = 100, ea_lambda = 150, ea_cxpb = 1 / 2, ea_mutpb = 1 / 2,
                  ea_ngen = ngen, ea_verbose = verbose self \<rparr> r1 s of
        Inl e \<Rightarrow> Inl e
      | Inr ((population', hof), r2, s2) \<Rightarrow>
          (case hof of
             [] \<Rightarrow> Inl IndexError
           | best # _ \<Rightarrow> Inr ((best, collect_member population'), r2, s2)))"
  using assms by (rule optimize_start_genome)

theorem optimize_start_solution_unchecked_witness:
  "draw_n (create_individual (small_problem 2 0)) 300 (sconst 1)
     = Inr (replicate 300 \<lparr>genes = [- 4, - 4, 1, 1], extra_data = None\<rparr>, sconst 1)
   \<and> optimize idle_loop (small_problem 2 0) (\<lambda>ind. pure_step (Inr (0, ind)))
        (StartGenome [1, 1, 0, 0]) 400 (sconst 1) ()
     = Inr ((\<lparr>genes = [1, 1, 0, 0], extra_data = None\<rparr>,
             \<lparr>bilanz = [], verluste = [], nebenbedingung = []\<rparr>), sconst 1, ())"
  using optimize_start_solution_unchecked
          [OF small_population, of idle_loop "\<lambda>ind. pure_step (Inr (0, ind))" "[1, 1, 0, 0]" 400 "()"]
        small_population
  by (simp add: idle_loop_def collect_member_def map_filter_none numeral_3_eq_3)

text \<open>
  C10. Once the 300 individuals are created, \<^verbatim>\<open>optimize\<close> starts the loop on exactly
  those individuals when the start solution is \<open>None\<close> or \<open>-1\<close>, and on three fresh
  copies of the start solution followed by those individuals for every other start
  solution, a gene list. With \<open>-1\<close> and with \<open>None\<close> it returns the same, also when the
  creation fails.
\<close>

theorem start_solution_minus_one_like_none:
  assumes "draw_n (create_individual self) 300 r = Inr (population, r1)"
  shows "optimize loop self ev start ngen r s =
     (case loop \<lparr> ea_population =
                    (case start of
                       StartNone \<Rightarrow> population
                     | StartMinusOne \<Rightarrow> population
                     | StartGenome g \<Rightarrow>
                         \<lparr>genes = g, extra_data = None\<rparr> # \<lparr>genes = g, extra_data = None\<rparr>
                           # \<lparr>genes = g, extra_data = None\<rparr> # population),
                  ea_evaluate = ev, ea_mate = mate, ea_mutate = mutate self,
                  ea_mu = 100, ea_lambda = 150, ea_cxpb = 1 / 2, ea_mutpb = 1 / 2,
                  ea_ngen = ngen, ea_verbose = verbose self \<rparr> r1 s of
        Inl e \<Rightarrow> Inl e
      | Inr ((population', hof), r2, s2) \<Rightarrow>
          (case hof of
             [] \<Rightarrow> Inl IndexError
           | best # _ \<Rightarrow> Inr ((best, collect_member population'), r2, s2)))
   \<and> optimize loop self' ev' StartMinusOne ngen' r' s'
       = optimize loop self' ev' StartNone ngen' r' s'
   \<and> insert_start_solution StartMinusOne population = population
   \<and> insert_start_solution StartNone population = population
   \<and> insert_start_solution (StartGenome g') population
       = \<lparr>genes = g', extra_data = None\<rparr> # \<lparr>genes = g', extra_data = None\<rparr>
           # \<lparr>genes = g', extra_data = None\<rparr> # population"
proof -
  have same: "insert_start_solution StartMinusOne = insert_start_solution StartNone"
    by (rule ext) (simp add: insert_start_solution_def)
  have eq: "optimize loop self' ev' StartMinusOne ngen' r' s'
              = optimize loop self' ev' StartNone ngen' r' s'"
    unfolding optimize_def same by (rule refl)
  have ins: "insert_start_solution start population =
               (case start of
                  StartNone \<Rightarrow> population
                | StartMinusOne \<Rightarrow> population
                | StartGenome g \<Rightarrow>
                    \<lparr>genes = g, extra_data = None\<rparr> # \<lparr>genes = g, extra_data = None\<rparr>
                      # \<lparr>genes = g, extra_data = None\<rparr> # population)"
    by (cases start) (simp_all add: insert_start_solution_def numeral_3_eq_3)
  have run: "optimize loop self ev start ngen r s =
     (case loop \<lparr> ea_population = insert_start_solution start population,
                  ea_evaluate = ev, ea_mate = mate, ea_mutate = mutate self,
                  ea_mu = 100, ea_lambda = 150, ea_cxpb = 1 / 2, ea_mutpb = 1 / 2,
                  ea_ngen = ngen, ea_verbose = verbose self \<rparr> r1 s of
        Inl e \<Rightarrow> Inl e
      | Inr ((population', hof), r2, s2) \<Rightarrow>
          (case hof of
             [] \<Rightarrow> Inl IndexError
           | best # _ \<Rightarrow> Inr ((best, collect_member population'), r2, s2)))"
    using assms by (simp add: optimize_def)
  from run [unfolded ins] eq show ?thesis
    by (simp add: insert_start_solution_def numeral_3_eq_3)
qed

theorem start_solution_minus_one_like_none_witness:
  "draw_n (create_individual (small_problem 2 0)) 300 (sconst 1)
     = Inr (replicate 300 \<lparr>genes = [- 4, - 4, 1, 1], extra_data = None\<rparr>, sconst 1)
   \<and> optimize idle_loop (small_problem 2 0) (\<lambda>ind. pure_step (Inr (0, ind)))
        StartMinusOne 400 (sconst 1) ()
     = Inr ((\<lparr>genes = [- 4, - 4, 1, 1], extra_data = None\<rparr>,
             \<lparr>bilanz = [], verluste = [], nebenbedingung = []\<rparr>), sconst 1, ())
   \<and> optimize idle_loop (small_problem 2 0) (\<lambda>ind. pure_step (Inr (0, ind)))
        (StartGenome [1, 0, 0, 1]) 400 (sconst 1) ()
     = Inr ((\<lparr>genes = [1, 0, 0, 1], extra_data = None\<rparr>,
             \<lparr>bilanz = [], verluste = [], nebenbedingung = []\<rparr>), sconst 1, ())"
proof -
  let ?x = "\<lparr>genes = [- 4, - 4, 1, 1], extra_data = None\<rparr>"
  let ?y = "\<lparr>genes = [1, 0, 0, 1], extra_data = None\<rparr>"
  have mf: "List.map_filter extra_data (replicate 300 ?x) = []"
    by (rule map_filter_none) simp
  have mg: "List.map_filter extra_data (?y # ?y # ?y # replicate 300 ?x) = []"
    by (rule map_filter_none) simp
  have one: "take 1 (replicate 300 ?x) = [?x]" "take 1 (?y # ?y # ?y # replicate 300 ?x) = [?y]"
    "replicate 1 ?x = [?x]"
    by simp_all
  from start_solution_minus_one_like_none
         [where loop = idle_loop and ev = "\<lambda>ind. pure_step (Inr (0, ind))"
            and start = StartMinusOne and ngen = 400 and s = "()",
          OF small_population, THEN conjunct1]
  have a: "optimize idle_loop (small_problem 2 0) (\<lambda>ind. pure_step (Inr (0, ind)))
             StartMinusOne 400 (sconst 1) ()
           = Inr ((?x, \<lparr>bilanz = [], verluste = [], nebenbedingung = []\<rparr>), sconst 1, ())"
    by (simp add: idle_loop_def collect_member_def mf one del: One_nat_def)
  from start_solution_minus_one_like_none
         [where loop = idle_loop and ev = "\<lambda>ind. pure_step (Inr (0, ind))"
            and start = "StartGenome [1, 0, 0, 1]" and ngen = 400 and s = "()",
          OF small_population, THEN conjunct1]
  have b: "optimize idle_loop (small_problem 2 0) (\<lambda>ind. pure_step (Inr (0, ind)))
             (StartGenome [1, 0, 0, 1]) 400 (sconst 1) ()
           = Inr ((?y, \<lparr>bilanz = [], verluste = [], nebenbedingung = []\<rparr>), sconst 1, ())"
    by (simp add: idle_loop_def collect_member_def mg mf one Let_def
          List.map_filter_simps del: One_nat_def)
  from small_population a b show ?thesis by (intro conjI)
qed

subsection \<open>The entry point\<close>

text \<open>
  The entry point runs to an end on the sample: the genes of the best individual are
  split, the first element and the \<open>nan\<close> of every listed array become \<open>None\<close>.
\<close>

lemma modify_keys_arrays:
  assumes "distinct keys" and "\<forall>k \<in> set keys. pro_stunde out k = Some (NpArray (x # xs))"
  shows "modify_keys keys out
           = Inr (out\<lparr>pro_stunde :=
                    fold (\<lambda>k m. m(k \<mapsto> PyList (map (\<lambda>v. if v = Some NaN then None else v)
                                                (None # map Some xs))))
                         keys (pro_stunde out)\<rparr>)"
  using assms
proof (induction keys arbitrary: out)
  case Nil
  then show ?case by simp
next
  case (Cons k keys)
  let ?out = "out\<lparr>pro_stunde := (pro_stunde out)
                (k \<mapsto> PyList (map (\<lambda>v. if v = Some NaN then None else v)
                                (None # map Some xs)))\<rparr>"
  from Cons.prems have 1: "modify_key k out = Inr ?out"
    by (simp add: modify_key_def)
  from Cons.prems have "distinct keys"
    and "\<forall>k' \<in> set keys. pro_stunde ?out k' = Some (NpArray (x # xs))"
    by auto
  from Cons.IH [OF this] 1 show ?case by simp
qed

lemma sample_self:
  "setup_deap_environment
     (auto_disable_ev (init [0, 6] 2 10 2 False None) (small_parameter 80 20 0)) 0 8
   = small_problem 2 0"
  by (simp add: setup_defs)

lemma sample_eval:
  "evaluate_inner (constant_ems hourly_outcome 50 0) (small_problem 2 0) [- 4, - 4, 1, 1] 8 ()
     = (Inr hourly_outcome, ())"
  by (simp add: run_defs)

lemma sample_keys:
  "modify_keys keys_to_modify hourly_outcome
     = Inr (hourly_outcome\<lparr>pro_stunde :=
              fold (\<lambda>k m. m(k \<mapsto> PyList [None, None, Some (Finite 1)]))
                   keys_to_modify (pro_stunde hourly_outcome)\<rparr>)"
proof -
  have "distinct keys_to_modify" by (simp add: keys_to_modify_def)
  moreover have "\<forall>k \<in> set keys_to_modify.
      pro_stunde hourly_outcome k = Some (NpArray (Finite 5 # [NaN, Finite 1]))"
    by (simp add: hourly_outcome_def)
  ultimately show ?thesis
    using modify_keys_arrays [of keys_to_modify hourly_outcome "Finite 5" "[NaN, Finite 1]"]
    by simp
qed

lemma sample_optimize:
  "optimize idle_loop (small_problem 2 0) ev StartNone 400 (sconst 1) ()
     = Inr ((\<lparr>genes = [- 4, - 4, 1, 1], extra_data = None\<rparr>,
             \<lparr>bilanz = [], verluste = [], nebenbedingung = []\<rparr>), sconst 1, ())"
proof -
  let ?x = "\<lparr>genes = [- 4, - 4, 1, 1], extra_data = None\<rparr>"
  have mf: "List.map_filter extra_data (replicate 300 ?x) = []"
    by (rule map_filter_none) simp
  have one: "replicate 1 ?x = [?x]" by simp
  show ?thesis
    by (simp add: optimize_def small_population insert_start_solution_def idle_loop_def
          collect_member_def mf one del: One_nat_def)
qed

lemma optimierung_ems_sample_run:
  "optimierung_ems sample_collaborators (init [0, 6] 2 10 2 False None)
       (small_parameter 80 20 0) 8 False startdate 400 (sconst 1)
     = Inr (\<lparr> res_discharge_hours_bin = [- 4, - 4],
              res_eautocharge_hours_float = [1, 1],
              res_result = hourly_outcome\<lparr>pro_stunde :=
                fold (\<lambda>k m. m(k \<mapsto> PyList [None, None, Some (Finite 1)]))
                     keys_to_modify (pro_stunde hourly_outcome)\<rparr>,
              res_eauto_obj = (),
              res_start_solution = \<lparr>genes = [- 4, - 4, 1, 1], extra_data = None\<rparr>,
              res_spuelstart = None,
              res_simulation_data = hourly_outcome\<lparr>pro_stunde :=
                fold (\<lambda>k m. m(k \<mapsto> PyList [None, None, Some (Finite 1)]))
                     keys_to_modify (pro_stunde hourly_outcome)\<rparr> \<rparr>,
            small_problem 2 0, sconst 1, ())"
proof -
  have p: "haushaltsgeraet_dauer (small_parameter 80 20 0) = 0"
    "start_solution (small_parameter 80 20 0) = StartNone"
    "prediction_hours (init [0, 6] 2 10 2 False None) = 2"
    by (simp_all add: setup_defs)
  have sp: "split_individual (small_problem 2 0) [- 4, - 4, 1, 1] = Inr ([- 4, - 4], [1, 1], None)"
    by (simp add: split_individual_def setup_defs py_slice_def py_bound_def)
  show ?thesis
    unfolding optimierung_ems_def Let_def p
    by (simp add: np_full_def sample_collaborators_def sample_self sample_optimize
          sample_eval sp sample_keys del: One_nat_def)
qed

text \<open>
  C9. Two calls of \<^verbatim>\<open>optimierung_ems\<close> that differ only in \<open>startdate\<close>, with the same
  collaborators, object, parameters and random source, return the same.
\<close>

theorem optimierung_ems_ignores_startdate:
  "optimierung_ems co self p start_hour worst_case startdate ngen r
     = optimierung_ems co self p start_hour worst_case startdate' ngen r"
  by (simp add: optimierung_ems_def)

subsection \<open>Mutation and crossover\<close>

lemma mutUniformInt_length:
  "mutUniformInt low up p xs r = Inr (ys, r') \<Longrightarrow> length ys = length xs"
proof (induction xs arbitrary: r ys)
  case Nil
  then show ?case by simp
next
  case (Cons x xs)
  then show ?case
    by (auto split: prod.splits if_splits sum.splits)
qed

lemma mutUniformInt_range:
  "list_all (\<lambda>x. low \<le> x \<and> x \<le> up) xs \<Longrightarrow> mutUniformInt low up p xs r = Inr (ys, r')
     \<Longrightarrow> list_all (\<lambda>x. low \<le> x \<and> x \<le> up) ys"
proof (induction xs arbitrary: r ys)
  case Nil
  then show ?case by simp
next
  case (Cons x xs)
  then show ?case
    by (auto split: prod.splits if_splits sum.splits dest: randint_range)
qed

lemma genes_in_domain_parts:
  assumes "genes_in_domain self g"
  obtains tb d e a where
    "toolbox self = Some tb"
    "g = d @ e @ a"
    "length d = nat (prediction_hours self)" "list_all battery_gene_ok d"
    "length e = ev_region self" "list_all (ev_gene_ok self) e"
    "if has_appliance self then (\<exists>h. a = [h] \<and> hour_gene_ok tb h) else a = []"
proof -
  let ?H = "nat (prediction_hours self)"
  let ?E = "ev_region self"
  from assms obtain tb where tb: "toolbox self = Some tb"
    by (auto simp: genes_in_domain_def split: option.splits)
  from assms tb have len: "length g = ?H + ?E + (if has_appliance self then 1 else 0)"
    and d: "list_all battery_gene_ok (take ?H g)"
    and e: "list_all (ev_gene_ok self) (take ?E (drop ?H g))"
    and h: "if has_appliance self then hour_gene_ok tb (last g) else True"
    by (simp_all add: genes_in_domain_def)
  let ?a = "drop (?H + ?E) g"
  have g: "g = take ?H g @ take ?E (drop ?H g) @ ?a"
    by (metis append_take_drop_id drop_drop add.commute)
  have dl: "length (take ?H g) = ?H" using len by simp
  have el: "length (take ?E (drop ?H g)) = ?E" using len by simp
  have a: "if has_appliance self then (\<exists>h. ?a = [h] \<and> hour_gene_ok tb h) else ?a = []"
  proof (cases "has_appliance self")
    case True
    with len have "length ?a = 1" by simp
    then obtain x where x: "?a = [x]" by (cases ?a) auto
    then have "last g = x"
      by (metis append_take_drop_id last_snoc)
    with True h x show ?thesis by simp
  next
    case False
    with len show ?thesis by simp
  qed
  from tb g dl d el e a show thesis by (rule that)
qed

lemma genes_in_domain_from_parts:
  assumes "toolbox self = Some tb"
    "g = d @ e @ a"
    "length d = nat (prediction_hours self)" "list_all battery_gene_ok d"
    "length e = ev_region self" "list_all (ev_gene_ok self) e"
    "if has_appliance self then (\<exists>h. a = [h] \<and> hour_gene_ok tb h) else a = []"
  shows "genes_in_domain self g"
  using assms by (auto simp: genes_in_domain_def split: if_splits)

lemma py_slice_head:
  "0 \<le> H \<Longrightarrow> length d = nat H \<Longrightarrow> py_slice (d @ rest) 0 H = d"
  by (simp add: py_slice_def py_bound_def Let_def)

lemma py_slice_assign_head:
  "0 \<le> H \<Longrightarrow> length d = nat H \<Longrightarrow> py_slice_assign (d @ rest) 0 H d' = d' @ rest"
  by (simp add: py_slice_assign_def py_bound_def Let_def)

lemma py_slice_second:
  "0 \<le> H \<Longrightarrow> length d = nat H \<Longrightarrow> length e = nat H \<Longrightarrow> py_slice (d @ e @ a) H (H * 2) = e"
  by (simp add: py_slice_def py_bound_def Let_def nat_mult_distrib min_def)

lemma py_slice_assign_second:
  "0 \<le> H \<Longrightarrow> length d = nat H \<Longrightarrow> length e = nat H
     \<Longrightarrow> py_slice_assign (d @ e @ a) H (H * 2) e' = d @ e' @ a"
  by (simp add: py_slice_assign_def py_bound_def Let_def nat_mult_distrib min_def max_def)

lemma py_slice_from_assign_tail:
  "0 \<le> H \<Longrightarrow> f \<le> H \<Longrightarrow> length ev = nat H
     \<Longrightarrow> py_slice_from_assign ev (H - f) zs = take (nat (H - f)) ev @ zs"
  by (simp add: py_slice_from_assign_def py_bound_def min_def)


lemma mutate_ev_part_result:
  assumes H: "0 \<le> prediction_hours self" and f: "fixed_eauto_hours self \<le> prediction_hours self"
    and dl: "length d = nat (prediction_hours self)"
    and el: "length e = nat (prediction_hours self)"
    and ed: "list_all (ev_gene_ok self) e"
    and m: "mutate_ev_part self (d @ e @ a) r = Inr (g', r')"
  obtains e' where "g' = d @ e' @ a" "length e' = nat (prediction_hours self)"
    "list_all (ev_gene_ok self) e'"
    "list_all (\<lambda>x. x = 0)
       (drop (nat (prediction_hours self - fixed_eauto_hours self)) e')"
proof -
  let ?H = "prediction_hours self"
  let ?f = "fixed_eauto_hours self"
  let ?up = "int (length (possible_charge_values self)) - 1"
  from m obtain em where
    em: "mutUniformInt 0 ?up (1 / 10) e r = Inr (em, r')"
    and g': "g' = py_slice_assign (d @ e @ a) ?H (?H * 2)
                    (py_slice_from_assign em (?H - ?f) (replicate (nat ?f) 0))"
    by (auto simp: mutate_ev_part_def Let_def py_slice_second [OF H dl el] split: sum.splits)
  have eml: "length em = nat ?H" using mutUniformInt_length [OF em] el by simp
  from ed have "list_all (\<lambda>x. 0 \<le> x \<and> x \<le> ?up) e" by (simp add: ev_gene_ok_def [abs_def])
  from mutUniformInt_range [OF this em]
  have emd: "list_all (ev_gene_ok self) em" by (simp add: ev_gene_ok_def [abs_def])
  let ?e' = "take (nat (?H - ?f)) em @ replicate (nat ?f) 0"
  have tail: "py_slice_from_assign em (?H - ?f) (replicate (nat ?f) 0) = ?e'"
    using H f eml by (rule py_slice_from_assign_tail)
  have 1: "g' = d @ ?e' @ a"
    unfolding g' tail using H dl el by (rule py_slice_assign_second)
  have 2: "length ?e' = nat ?H" using H f eml by (simp add: min_def) linarith
  have zero_ok: "ev_gene_ok self 0" if "0 < nat ?f"
  proof -
    from that f el have "e \<noteq> []" by auto
    then obtain x xs where "e = x # xs" by (cases e) auto
    with ed have "ev_gene_ok self x" by simp
    then show ?thesis by (auto simp: ev_gene_ok_def)
  qed
  have "list_all (ev_gene_ok self) (replicate (nat ?f) 0)"
    using zero_ok by (cases "0 < nat ?f") (simp_all add: list_all_iff)
  moreover from emd have "list_all (ev_gene_ok self) (take (nat (?H - ?f)) em)"
    by (auto simp: list_all_iff dest: in_set_takeD)
  ultimately have 3: "list_all (ev_gene_ok self) ?e'" by simp
  have "drop (nat (?H - ?f)) ?e' = (if nat (?H - ?f) \<le> length em then replicate (nat ?f) 0 else [])"
    using H f eml by (auto simp: min_def)
  then have 4: "list_all (\<lambda>x. x = 0) (drop (nat (?H - ?f)) ?e')"
    by (simp add: list_all_iff)
  from 1 2 3 4 show thesis by (rule that)
qed

lemma mutate_appliance_part_result:
  assumes h: "hour_gene_ok tb h"
    and m: "mutate_appliance_part tb (xs @ [h]) r = Inr (g', r')"
  obtains v where "g' = xs @ [v]" "hour_gene_ok tb v"
proof -
  from m have m1:
    "(case mutUniformInt (tb_start_hour tb) 23 (1 / 10) [h] r of
        Inl e \<Rightarrow> Inl e
      | Inr (ys, r1) \<Rightarrow>
          (case ys of [] \<Rightarrow> Inl IndexError
           | v # _ \<Rightarrow> (case py_set_last (xs @ [h]) v of
                          Inl e \<Rightarrow> Inl e | Inr ind' \<Rightarrow> Inr (ind', r1)))) = Inr (g', r')"
    by (simp add: mutate_appliance_part_def py_last_def del: mutUniformInt.simps)
  then obtain ys r1 where ys0: "mutUniformInt (tb_start_hour tb) 23 (1 / 10) [h] r = Inr (ys, r1)"
    by (cases "mutUniformInt (tb_start_hour tb) 23 (1 / 10) [h] r") auto
  with m1 have g': "(case ys of [] \<Rightarrow> Inl IndexError
               | v # _ \<Rightarrow> (case py_set_last (xs @ [h]) v of
                              Inl e \<Rightarrow> Inl e | Inr ind' \<Rightarrow> Inr (ind', r1))) = Inr (g', r')"
    by (simp del: mutUniformInt.simps)
  then have "r1 = r'" by (auto split: list.splits sum.splits)
  with ys0 have ys: "mutUniformInt (tb_start_hour tb) 23 (1 / 10) [h] r = Inr (ys, r')"
    by simp
  from mutUniformInt_length [OF ys] obtain v where v: "ys = [v]"
    by (cases ys) auto
  from h have "list_all (\<lambda>x. tb_start_hour tb \<le> x \<and> x \<le> 23) [h]"
    by (simp add: hour_gene_ok_def)
  from mutUniformInt_range [OF this ys] v have vd: "hour_gene_ok tb v"
    by (simp add: hour_gene_ok_def)
  from g' v have "g' = xs @ [v]" by (simp add: py_set_last_def)
  then show thesis using vd by (rule that)
qed

lemma mutate_genes_domain:
  assumes dom: "genes_in_domain self g"
    and H: "0 \<le> prediction_hours self" and f: "fixed_eauto_hours self \<le> prediction_hours self"
    and m: "mutate_genes self g r = Inr (g', r')"
  shows "genes_in_domain self g' \<and> (if optimize_ev self then locked_tail_zero self g' else True)"
proof -
  let ?H = "prediction_hours self"
  let ?f = "fixed_eauto_hours self"
  from dom obtain tb d e a where
    tb: "toolbox self = Some tb" and g: "g = d @ e @ a"
    and dl: "length d = nat ?H" and dd: "list_all battery_gene_ok d"
    and el: "length e = ev_region self" and ed: "list_all (ev_gene_ok self) e"
    and a: "if has_appliance self then (\<exists>h. a = [h] \<and> hour_gene_ok tb h) else a = []"
    by (rule genes_in_domain_parts)
  have sl: "py_slice g 0 ?H = d" unfolding g using H dl by (rule py_slice_head)
  let ?rest = "\<lambda>discharge r1.
      (case (if optimize_ev self then
               mutate_ev_part self (py_slice_assign g 0 ?H discharge) r1
             else Inr (py_slice_assign g 0 ?H discharge, r1)) of
         Inl e \<Rightarrow> Inl e
       | Inr (ind2, r2) \<Rightarrow>
           (case opti_param self of
              None \<Rightarrow> Inl TypeError
            | Some haushaltsgeraete \<Rightarrow>
                (if 0 < haushaltsgeraete then mutate_appliance_part tb ind2 r2
                 else Inr (ind2, r2))))"
  from m tb have m1:
    "(case mutUniformInt (- 5) 1 (1 / 10) d r of
        Inl e \<Rightarrow> Inl e | Inr (discharge, r1) \<Rightarrow> ?rest discharge r1) = Inr (g', r')"
    by (simp add: mutate_genes_def sl)
  then obtain d' r1 where d': "mutUniformInt (- 5) 1 (1 / 10) d r = Inr (d', r1)"
    by (cases "mutUniformInt (- 5) 1 (1 / 10) d r") auto
  with m1 have m2: "?rest d' r1 = Inr (g', r')" by simp
  have d'l: "length d' = nat ?H" using mutUniformInt_length [OF d'] dl by simp
  from dd have "list_all (\<lambda>x. - 5 \<le> x \<and> x \<le> 1) d" by (simp add: battery_gene_ok_def [abs_def])
  from mutUniformInt_range [OF this d']
  have d'd: "list_all battery_gene_ok d'" by (simp add: battery_gene_ok_def [abs_def])
  have as: "py_slice_assign g 0 ?H d' = d' @ e @ a"
    unfolding g using H dl by (rule py_slice_assign_head)
  let ?step2 = "if optimize_ev self then mutate_ev_part self (d' @ e @ a) r1
                else Inr (d' @ e @ a, r1)"
  from m2 have m3:
    "(case ?step2 of
        Inl e \<Rightarrow> Inl e
      | Inr (ind2, r2) \<Rightarrow>
          (case opti_param self of
             None \<Rightarrow> Inl TypeError
           | Some haushaltsgeraete \<Rightarrow>
               (if 0 < haushaltsgeraete then mutate_appliance_part tb ind2 r2
                else Inr (ind2, r2)))) = Inr (g', r')"
    unfolding as .
  then obtain ind2 r2 where s2: "?step2 = Inr (ind2, r2)"
    by (cases ?step2) auto
  with m3 have m4:
    "(case opti_param self of
        None \<Rightarrow> Inl TypeError
      | Some haushaltsgeraete \<Rightarrow>
          (if 0 < haushaltsgeraete then mutate_appliance_part tb ind2 r2
           else Inr (ind2, r2))) = Inr (g', r')"
    by simp
  have "\<exists>e'. ind2 = d' @ e' @ a \<and> length e' = ev_region self \<and> list_all (ev_gene_ok self) e'
          \<and> (if optimize_ev self then list_all (\<lambda>x. x = 0) (drop (nat (?H - ?f)) e') else True)"
  proof (cases "optimize_ev self")
    case True
    with s2 have mm: "mutate_ev_part self (d' @ e @ a) r1 = Inr (ind2, r2)" by simp
    from True el have el': "length e = nat ?H" by (simp add: ev_region_def)
    from H f d'l el' ed mm show ?thesis
      by (rule mutate_ev_part_result) (use True in \<open>auto simp: ev_region_def\<close>)
  next
    case False
    with s2 el ed show ?thesis by auto
  qed
  then obtain e' where i2: "ind2 = d' @ e' @ a" and e'l: "length e' = ev_region self"
    and e'd: "list_all (ev_gene_ok self) e'"
    and e'z: "if optimize_ev self then list_all (\<lambda>x. x = 0) (drop (nat (?H - ?f)) e') else True"
    by blast
  from m4 obtain hg where hg: "opti_param self = Some hg"
    by (cases "opti_param self") auto
  with m4 have s3:
    "(if 0 < hg then mutate_appliance_part tb ind2 r2 else Inr (ind2, r2)) = Inr (g', r')"
    by simp
  have "\<exists>a'. g' = d' @ e' @ a'
          \<and> (if has_appliance self then (\<exists>h. a' = [h] \<and> hour_gene_ok tb h) else a' = [])"
  proof (cases "0 < hg")
    case True
    with hg have app: "has_appliance self" by (simp add: has_appliance_def)
    with a obtain h where ah: "a = [h]" and hd: "hour_gene_ok tb h" by auto
    from s3 True i2 ah have mm: "mutate_appliance_part tb ((d' @ e') @ [h]) r2 = Inr (g', r')"
      by simp
    from hd mm show ?thesis
      by (rule mutate_appliance_part_result) (use app in auto)
  next
    case False
    with hg have "\<not> has_appliance self" by (simp add: has_appliance_def)
    with a s3 False i2 show ?thesis by auto
  qed
  then obtain a' where g': "g' = d' @ e' @ a'"
    and a': "if has_appliance self then (\<exists>h. a' = [h] \<and> hour_gene_ok tb h) else a' = []"
    by blast
  from tb g' d'l d'd e'l e'd a' have 1: "genes_in_domain self g'"
    by (rule genes_in_domain_from_parts)
  have 2: "locked_tail_zero self g'" if on: "optimize_ev self"
  proof -
    from on e'l have l: "length e' = nat ?H" by (simp add: ev_region_def)
    from H have n2: "nat (2 * ?H) = nat ?H + nat ?H" by simp
    from H f have nd: "nat (2 * ?H - ?f) = nat ?H + nat (?H - ?f)" by simp
    have "take (nat (2 * ?H)) g' = d' @ e'" unfolding g' n2 using d'l l by simp
    then have "drop (nat (2 * ?H - ?f)) (take (nat (2 * ?H)) g') = drop (nat (?H - ?f)) e'"
      unfolding nd using d'l by simp
    with e'z on show ?thesis by (simp add: locked_tail_zero_def)
  qed
  from 1 2 show ?thesis by simp
qed


lemma swap_segment_length:
  assumes "length xs = length ys" "l \<le> h" "h \<le> length xs"
  shows "length (take l xs @ take (h - l) (drop l ys) @ drop h xs) = length xs"
  using assms by simp

lemma swap_segment_nth:
  assumes "length xs = length ys" "l \<le> h" "h \<le> length xs" "i < length xs"
  shows "(take l xs @ take (h - l) (drop l ys) @ drop h xs) ! i
           = (if l \<le> i \<and> i < h then ys ! i else xs ! i)"
proof -
  consider "i < l" | "l \<le> i" "i < h" | "h \<le> i" by linarith
  then show ?thesis
  proof cases
    case 1
    with assms show ?thesis by (simp add: nth_append)
  next
    case 2
    then have "i - l < h - l" by linarith
    with 2 assms show ?thesis by (simp add: nth_append)
  next
    case 3
    with assms have "\<not> i - l < h - l" "i - l - (h - l) = i - h" "\<not> i < l" by linarith+
    with 3 assms show ?thesis by (simp add: nth_append)
  qed
qed

lemma cxTwoPoint_children:
  assumes len: "length g1 = length g2"
    and cx: "cxTwoPoint g1 g2 r = Inr ((c1, c2), r')"
  obtains l h where "l \<le> h" "h \<le> length g1"
    "c1 = take l g1 @ take (h - l) (drop l g2) @ drop h g1"
    "c2 = take l g2 @ take (h - l) (drop l g1) @ drop h g2"
proof -
  let ?n = "int (length g1)"
  from cx len obtain p1 r1 where p1: "randint 1 ?n r = Inr (p1, r1)"
    by (cases "randint 1 ?n r") (auto simp: cxTwoPoint_def Let_def)
  from cx len p1 obtain p2 r2 where p2: "randint 1 (?n - 1) r1 = Inr (p2, r2)"
    by (cases "randint 1 (?n - 1) r1") (auto simp: cxTwoPoint_def Let_def)
  let ?a = "if p1 \<le> p2 then p1 else p2"
  let ?b = "if p1 \<le> p2 then p2 + 1 else p1"
  from cx len p1 p2 have
    c1: "c1 = py_slice_assign g1 ?a ?b (py_slice g2 ?a ?b)" and
    c2: "c2 = py_slice_assign g2 ?a ?b (py_slice g1 ?a ?b)"
    by (simp_all add: cxTwoPoint_def Let_def)
  from randint_range [OF p1] randint_range [OF p2]
  have b: "1 \<le> ?a" "?a \<le> ?b" "?b \<le> ?n" by auto
  then have pa: "py_bound (length g1) ?a = nat ?a" and pb: "py_bound (length g1) ?b = nat ?b"
    unfolding py_bound_def by auto
  have le: "nat ?a \<le> nat ?b" "nat ?b \<le> length g1" using b by auto
  have 1: "c1 = take (nat ?a) g1 @ take (nat ?b - nat ?a) (drop (nat ?a) g2) @ drop (nat ?b) g1"
    unfolding c1 py_slice_assign_def py_slice_def Let_def len [symmetric] pa pb
    using le by (simp add: max_def)
  have 2: "c2 = take (nat ?a) g2 @ take (nat ?b - nat ?a) (drop (nat ?a) g1) @ drop (nat ?b) g2"
    unfolding c2 py_slice_assign_def py_slice_def Let_def len [symmetric] pa pb
    using le by (simp add: max_def)
  from le 1 2 show thesis by (rule that)
qed

lemma genes_in_domain_pointwise:
  assumes d1: "genes_in_domain self g1" and d2: "genes_in_domain self g2"
    and len: "length c = length g1"
    and pw: "\<And>i. i < length c \<Longrightarrow> c ! i = g1 ! i \<or> c ! i = g2 ! i"
  shows "genes_in_domain self c"
proof -
  let ?H = "nat (prediction_hours self)"
  let ?E = "ev_region self"
  from d1 obtain tb where tb: "toolbox self = Some tb"
    by (auto simp: genes_in_domain_def split: option.splits)
  from d1 d2 tb have l12: "length g2 = length g1" by (simp add: genes_in_domain_def)
  have bat: "list_all battery_gene_ok (take ?H c)"
    unfolding list_all_length
  proof (intro allI impI)
    fix i assume i: "i < length (take ?H c)"
    then have ic: "i < length c" "i < ?H" by simp_all
    from d1 tb have "list_all battery_gene_ok (take ?H g1)" by (simp add: genes_in_domain_def)
    with ic len have 1: "battery_gene_ok (g1 ! i)"
      unfolding list_all_length by (auto dest!: spec [of _ i])
    from d2 tb have "list_all battery_gene_ok (take ?H g2)" by (simp add: genes_in_domain_def)
    with ic len l12 have 2: "battery_gene_ok (g2 ! i)"
      unfolding list_all_length by (auto dest!: spec [of _ i])
    from pw [OF ic(1)] 1 2 ic show "battery_gene_ok (take ?H c ! i)" by auto
  qed
  have ev: "list_all (ev_gene_ok self) (take ?E (drop ?H c))"
    unfolding list_all_length
  proof (intro allI impI)
    fix i assume i: "i < length (take ?E (drop ?H c))"
    then have ic: "?H + i < length c" "i < ?E" by (simp_all add: less_diff_conv ac_simps)
    from d1 tb have "list_all (ev_gene_ok self) (take ?E (drop ?H g1))"
      by (simp add: genes_in_domain_def)
    with ic len have 1: "ev_gene_ok self (g1 ! (?H + i))"
      unfolding list_all_length by (auto dest!: spec [of _ i])
    from d2 tb have "list_all (ev_gene_ok self) (take ?E (drop ?H g2))"
      by (simp add: genes_in_domain_def)
    with ic len l12 have 2: "ev_gene_ok self (g2 ! (?H + i))"
      unfolding list_all_length by (auto dest!: spec [of _ i])
    from pw [OF ic(1)] 1 2 ic show "ev_gene_ok self (take ?E (drop ?H c) ! i)" by auto
  qed
  have app: "hour_gene_ok tb (last c)" if a: "has_appliance self"
  proof -
    from d1 tb a have n: "g1 \<noteq> []" and h1: "hour_gene_ok tb (last g1)"
      by (auto simp: genes_in_domain_def)
    from d2 tb a have h2: "hour_gene_ok tb (last g2)" by (simp add: genes_in_domain_def)
    from n len l12 have ne: "c \<noteq> []" "g2 \<noteq> []" by auto
    from ne have "length c - 1 < length c" by (cases c) auto
    from pw [OF this] show ?thesis
      using h1 h2 n ne len l12 by (auto simp: last_conv_nth)
  qed
  from d1 tb len bat ev app show ?thesis by (simp add: genes_in_domain_def)
qed

lemma locked_tail_zero_pointwise:
  assumes z1: "locked_tail_zero self g1" and z2: "locked_tail_zero self g2"
    and len: "length c = length g1" "length g2 = length g1"
    and pw: "\<And>i. i < length c \<Longrightarrow> c ! i = g1 ! i \<or> c ! i = g2 ! i"
  shows "locked_tail_zero self c"
  unfolding locked_tail_zero_def list_all_length
proof (intro allI impI)
  let ?lo = "nat (2 * prediction_hours self - fixed_eauto_hours self)"
  let ?hi = "nat (2 * prediction_hours self)"
  fix i assume i: "i < length (drop ?lo (take ?hi c))"
  then have ic: "?lo + i < length c" "?lo + i < ?hi" by (simp_all add: less_diff_conv ac_simps)
  from z1 ic len have 1: "g1 ! (?lo + i) = 0"
    unfolding locked_tail_zero_def list_all_length by (auto dest!: spec [of _ i])
  from z2 ic len have 2: "g2 ! (?lo + i) = 0"
    unfolding locked_tail_zero_def list_all_length by (auto dest!: spec [of _ i])
  from pw [OF ic(1)] 1 2 ic show "drop ?lo (take ?hi c) ! i = 0" by auto
qed

lemma cxTwoPoint_domain:
  assumes d1: "genes_in_domain self g1" and d2: "genes_in_domain self g2"
    and cx: "cxTwoPoint g1 g2 r = Inr ((c1, c2), r')"
  shows "genes_in_domain self c1 \<and> genes_in_domain self c2
         \<and> (if locked_tail_zero self g1 \<and> locked_tail_zero self g2
             then locked_tail_zero self c1 \<and> locked_tail_zero self c2 else True)"
proof -
  from d1 d2 have len: "length g1 = length g2"
    by (auto simp: genes_in_domain_def split: option.splits)
  from len cx obtain l h where lh: "l \<le> h" "h \<le> length g1"
    and c1: "c1 = take l g1 @ take (h - l) (drop l g2) @ drop h g1"
    and c2: "c2 = take l g2 @ take (h - l) (drop l g1) @ drop h g2"
    by (rule cxTwoPoint_children)
  have l1: "length c1 = length g1" unfolding c1 using len lh by (rule swap_segment_length)
  have l2: "length c2 = length g2" unfolding c2
    using len [symmetric] lh by (intro swap_segment_length) simp_all
  have p1: "c1 ! i = g1 ! i \<or> c1 ! i = g2 ! i" if "i < length c1" for i
    using swap_segment_nth [OF len lh, of i] that l1 unfolding c1 by auto
  have p2: "c2 ! i = g2 ! i \<or> c2 ! i = g1 ! i" if "i < length c2" for i
    using swap_segment_nth [OF len [symmetric], of l h i] that l2 lh len unfolding c2 by auto
  have a: "genes_in_domain self c1" using d1 d2 l1 p1 by (rule genes_in_domain_pointwise)
  have b: "genes_in_domain self c2" using d2 d1 l2 p2 by (rule genes_in_domain_pointwise)
  have c: "locked_tail_zero self c1 \<and> locked_tail_zero self c2"
    if z: "locked_tail_zero self g1" "locked_tail_zero self g2"
  proof
    show "locked_tail_zero self c1"
      using z l1 len [symmetric] p1 by (rule locked_tail_zero_pointwise)
    show "locked_tail_zero self c2"
      using z(2) z(1) l2 len p2 by (rule locked_tail_zero_pointwise)
  qed
  from a b c show ?thesis by simp
qed

text \<open>
  C5. Claimed: every individual coming from initialisation, mutation or crossover has
  its locked-tail EV genes at zero, the tail being zeroed again after crossover. With
  two prediction hours of which one is open (locked tail: the last EV gene),
  \<^verbatim>\<open>create_individual\<close> draws the tail gene like any other, here as 1, and the
  crossover of two such individuals returns children with that gene still at 1:
  \<^verbatim>\<open>mate\<close> is the plain two-point operator.
\<close>

theorem locked_tail_counterexample:
  "create_individual (small_problem 1 0) (sconst 1)
     = Inr (\<lparr>genes = [- 4, - 4, 1, 1], extra_data = None\<rparr>, sconst 1)
   \<and> \<not> locked_tail_zero (small_problem 1 0) [- 4, - 4, 1, 1]
   \<and> mate \<lparr>genes = [- 4, - 4, 1, 1], extra_data = None\<rparr>
          \<lparr>genes = [- 4, - 4, 1, 1], extra_data = None\<rparr> (sconst 1)
     = Inr ((\<lparr>genes = [- 4, - 4, 1, 1], extra_data = None\<rparr>,
             \<lparr>genes = [- 4, - 4, 1, 1], extra_data = None\<rparr>), sconst 1)"
proof -
  have c: "create_individual (small_problem 1 0) (sconst 1)
             = Inr (\<lparr>genes = [- 4, - 4, 1, 1], extra_data = None\<rparr>, sconst 1)"
    by (simp add: create_individual_def setup_defs randint_def numeral_2_eq_2)
  have z: "\<not> locked_tail_zero (small_problem 1 0) [- 4, - 4, 1, 1]"
    by (simp add: locked_tail_zero_def setup_defs)
  have r1: "randint 1 4 (sconst 1) = Inr (2, sconst 1)" by (simp add: randint_def)
  have r2: "randint 1 3 (sconst 1) = Inr (2, sconst 1)" by (simp add: randint_def)
  have s: "py_slice [- 4, - 4, 1, 1 :: int] 2 3 = [1]"
    by (simp add: py_slice_def py_bound_def)
  have t: "py_slice_assign [- 4, - 4, 1, 1 :: int] 2 3 [1] = [- 4, - 4, 1, 1]"
    by (simp add: py_slice_assign_def py_bound_def)
  have x: "cxTwoPoint [- 4, - 4, 1, 1] [- 4, - 4, 1, 1] (sconst 1)
             = Inr (([- 4, - 4, 1, 1], [- 4, - 4, 1, 1]), sconst 1)"
    by (simp add: cxTwoPoint_def r1 r2 s t del: One_nat_def)
  have m: "mate \<lparr>genes = [- 4, - 4, 1, 1], extra_data = None\<rparr>
             \<lparr>genes = [- 4, - 4, 1, 1], extra_data = None\<rparr> (sconst 1)
     = Inr ((\<lparr>genes = [- 4, - 4, 1, 1], extra_data = None\<rparr>,
             \<lparr>genes = [- 4, - 4, 1, 1], extra_data = None\<rparr>), sconst 1)"
    by (simp add: mate_def x del: One_nat_def)
  from c z m show ?thesis by (intro conjI)
qed

text \<open>
  C5, as the source has it. A created individual has every gene in its domain. Mutation
  of an individual with every gene in its domain, for \<open>0 \<le> prediction_hours\<close> and
  \<open>fixed_eauto_hours \<le> prediction_hours\<close>, gives one with every gene in its domain
  and, when \<open>optimize_ev\<close> is set, with the locked tail at zero. Crossover of two
  individuals with every gene in its domain gives two such children; nothing is zeroed
  afterwards, the children have a zero tail when both parents have.
\<close>

theorem operators_respect_domains:
  "(create_individual self r = Inr (ind, r') \<longrightarrow> genes_in_domain self (genes ind))
   \<and> (genes_in_domain self (genes ind0) \<and> 0 \<le> prediction_hours self
        \<and> fixed_eauto_hours self \<le> prediction_hours self
        \<and> mutate self ind0 r0 = Inr (ind1, r1) \<longrightarrow>
        genes_in_domain self (genes ind1)
        \<and> (if optimize_ev self then locked_tail_zero self (genes ind1) else True))
   \<and> (genes_in_domain self (genes p1) \<and> genes_in_domain self (genes p2)
        \<and> mate p1 p2 r2 = Inr ((c1, c2), r3) \<longrightarrow>
        genes_in_domain self (genes c1) \<and> genes_in_domain self (genes c2)
        \<and> (if locked_tail_zero self (genes p1) \<and> locked_tail_zero self (genes p2)
            then locked_tail_zero self (genes c1) \<and> locked_tail_zero self (genes c2)
            else True))"
proof -
  have 1: "genes_in_domain self (genes ind)" if "create_individual self r = Inr (ind, r')"
    using that by (rule create_individual_domain)
  have 2: "genes_in_domain self (genes ind1)
        \<and> (if optimize_ev self then locked_tail_zero self (genes ind1) else True)"
    if h: "genes_in_domain self (genes ind0) \<and> 0 \<le> prediction_hours self
        \<and> fixed_eauto_hours self \<le> prediction_hours self
        \<and> mutate self ind0 r0 = Inr (ind1, r1)"
  proof -
    from h have "mutate_genes self (genes ind0) r0 = Inr (genes ind1, r1)"
      by (auto simp: mutate_def split: sum.splits)
    with h mutate_genes_domain [of self "genes ind0" r0 "genes ind1" r1]
    show ?thesis by blast
  qed
  have 3: "genes_in_domain self (genes c1) \<and> genes_in_domain self (genes c2)
        \<and> (if locked_tail_zero self (genes p1) \<and> locked_tail_zero self (genes p2)
            then locked_tail_zero self (genes c1) \<and> locked_tail_zero self (genes c2)
            else True)"
    if h: "genes_in_domain self (genes p1) \<and> genes_in_domain self (genes p2)
        \<and> mate p1 p2 r2 = Inr ((c1, c2), r3)"
  proof -
    from h have "cxTwoPoint (genes p1) (genes p2) r2 = Inr ((genes c1, genes c2), r3)"
      by (auto simp: mate_def split: sum.splits)
    with h cxTwoPoint_domain [of self "genes p1" "genes p2" r2 "genes c1" "genes c2" r3]
    show ?thesis by blast
  qed
  from 1 2 3 show ?thesis by blast
qed

lemmas domain_defs =
  genes_in_domain_def locked_tail_zero_def has_appliance_def ev_region_def
  battery_gene_ok_def ev_gene_ok_def hour_gene_ok_def

theorem operators_respect_domains_witness:
  "create_individual (small_problem 1 1) (sconst 1)
     = Inr (\<lparr>genes = [- 4, - 4, 1, 1, 9], extra_data = None\<rparr>, sconst 1)
   \<and> genes_in_domain (small_problem 1 1) [- 4, - 4, 1, 1, 9]
   \<and> mutate (small_problem 1 1) \<lparr>genes = [- 4, - 4, 1, 1, 9], extra_data = None\<rparr>
        (sconst (2 ^ 52))
     = Inr (\<lparr>genes = [- 4, - 4, 1, 0, 9], extra_data = None\<rparr>, sconst (2 ^ 52))
   \<and> genes_in_domain (small_problem 1 1) [- 4, - 4, 1, 0, 9]
   \<and> locked_tail_zero (small_problem 1 1) [- 4, - 4, 1, 0, 9]
   \<and> genes_in_domain (small_problem 1 1) [1, 0, 0, 0, 8]
   \<and> locked_tail_zero (small_problem 1 1) [1, 0, 0, 0, 8]
   \<and> mate \<lparr>genes = [- 4, - 4, 1, 0, 9], extra_data = None\<rparr>
          \<lparr>genes = [1, 0, 0, 0, 8], extra_data = None\<rparr> (sconst 1)
     = Inr ((\<lparr>genes = [- 4, - 4, 0, 0, 9], extra_data = None\<rparr>,
             \<lparr>genes = [1, 0, 1, 0, 8], extra_data = None\<rparr>), sconst 1)
   \<and> genes_in_domain (small_problem 1 1) [- 4, - 4, 0, 0, 9]
   \<and> genes_in_domain (small_problem 1 1) [1, 0, 1, 0, 8]
   \<and> locked_tail_zero (small_problem 1 1) [- 4, - 4, 0, 0, 9]
   \<and> locked_tail_zero (small_problem 1 1) [1, 0, 1, 0, 8]"
proof -
  let ?P = "small_problem 1 1"
  let ?a = "\<lparr>genes = [- 4, - 4, 1, 1, 9], extra_data = None\<rparr>"
  let ?b = "\<lparr>genes = [- 4, - 4, 1, 0, 9], extra_data = None\<rparr>"
  let ?c = "\<lparr>genes = [1, 0, 0, 0, 8], extra_data = None\<rparr>"
  let ?d1 = "\<lparr>genes = [- 4, - 4, 0, 0, 9], extra_data = None\<rparr>"
  let ?d2 = "\<lparr>genes = [1, 0, 1, 0, 8], extra_data = None\<rparr>"
  have c: "create_individual ?P (sconst 1) = Inr (?a, sconst 1)"
    by (simp add: create_individual_def setup_defs randint_def numeral_2_eq_2)
  have cfg: "0 \<le> prediction_hours ?P" "fixed_eauto_hours ?P \<le> prediction_hours ?P"
    "optimize_ev ?P"
    by (simp_all add: setup_defs)
  have m: "mutate ?P ?a (sconst (2 ^ 52)) = Inr (?b, sconst (2 ^ 52))"
    by (simp add: mutate_def mutate_genes_def mutate_ev_part_def mutate_appliance_part_def
          setup_defs random_random_def py_slice_def py_slice_assign_def
          py_slice_from_assign_def py_bound_def py_last_def py_set_last_def Let_def)
  have pc: "genes_in_domain ?P (genes ?c)" "locked_tail_zero ?P (genes ?c)"
    by (simp_all add: domain_defs setup_defs)
  have r1: "randint 1 5 (sconst 1) = Inr (2, sconst 1)" by (simp add: randint_def)
  have r2: "randint 1 4 (sconst 1) = Inr (2, sconst 1)" by (simp add: randint_def)
  have s1: "py_slice [- 4, - 4, 1, 0, 9 :: int] 2 3 = [1]"
    "py_slice [1, 0, 0, 0, 8 :: int] 2 3 = [0]"
    by (simp_all add: py_slice_def py_bound_def)
  have s2: "py_slice_assign [- 4, - 4, 1, 0, 9 :: int] 2 3 [0] = [- 4, - 4, 0, 0, 9]"
    "py_slice_assign [1, 0, 0, 0, 8 :: int] 2 3 [1] = [1, 0, 1, 0, 8]"
    by (simp_all add: py_slice_assign_def py_bound_def)
  have cx: "cxTwoPoint [- 4, - 4, 1, 0, 9] [1, 0, 0, 0, 8] (sconst 1)
              = Inr (([- 4, - 4, 0, 0, 9], [1, 0, 1, 0, 8]), sconst 1)"
    by (simp add: cxTwoPoint_def r1 r2 s1 s2 del: One_nat_def)
  have x: "mate ?b ?c (sconst 1) = Inr ((?d1, ?d2), sconst 1)"
    by (simp add: mate_def cx del: One_nat_def)
  from operators_respect_domains
         [where self = ?P and r = "sconst 1" and ind = ?a and r' = "sconst 1"
            and ?ind0.0 = ?a and ?r0.0 = "sconst (2 ^ 52)" and ?ind1.0 = ?b
            and ?r1.0 = "sconst (2 ^ 52)"
            and ?p1.0 = ?b and ?p2.0 = ?c and ?r2.0 = "sconst 1"
            and ?c1.0 = ?d1 and ?c2.0 = ?d2 and ?r3.0 = "sconst 1"]
       c cfg m pc x
  show ?thesis by (auto split: if_splits)
qed

end
